theory Spec2Isabelle
  imports Main
begin

section \<open>Bytes, runes and UTF-8\<close>

text \<open>
  A Go \<^verbatim>\<open>string\<close> and a \<^verbatim>\<open>[]byte\<close> are sequences of 8-bit bytes: both are
  modelled as \<^typ>\<open>string\<close> (a list of 8-bit characters). A rune is a natural number.
  The functions of this section model the standard packages \<^verbatim>\<open>unicode/utf8\<close> and
  \<^verbatim>\<open>unicode/utf16\<close>, which \<^verbatim>\<open>encoding/json\<close> calls; the shifts and masks of the
  Go code are written as multiplication, \<open>div\<close> and \<open>mod\<close> by powers of two.
\<close>

definition byte :: "char \<Rightarrow> nat" where
  "byte c = of_char c"

definition dquote :: char where
  "dquote = CHR 0x22"

definition bslash :: char where
  "bslash = CHR 0x5C"

definition RuneError :: nat where
  "RuneError = 0xFFFD"

definition in_range :: "nat \<Rightarrow> nat \<Rightarrow> char \<Rightarrow> bool" where
  "in_range lo hi c = (lo \<le> byte c \<and> byte c \<le> hi)"

text \<open>
  \<^verbatim>\<open>utf8.DecodeRune\<close>: the rune at the head of the bytes and its width; an empty
  input gives \<open>(RuneError, 0)\<close>, an invalid encoding (a stray continuation byte, a
  truncated sequence, an overlong form, a surrogate, a value above U+10FFFF) gives
  \<open>(RuneError, 1)\<close>. The bounds on the second byte are the accept ranges of the package.
\<close>

fun DecodeRune :: "string \<Rightarrow> nat \<times> nat" where
  "DecodeRune [] = (RuneError, 0)"
| "DecodeRune (c0 # cs) =
     (if byte c0 < 0x80 then (byte c0, 1)
      else if byte c0 < 0xC2 then (RuneError, 1)
      else if byte c0 < 0xE0 then
        (case cs of
           c1 # _ \<Rightarrow>
             if in_range 0x80 0xBF c1
             then ((byte c0 - 0xC0) * 64 + (byte c1 - 0x80), 2)
             else (RuneError, 1)
         | _ \<Rightarrow> (RuneError, 1))
      else if byte c0 < 0xF0 then
        (case cs of
           c1 # c2 # _ \<Rightarrow>
             if in_range (if byte c0 = 0xE0 then 0xA0 else 0x80)
                         (if byte c0 = 0xED then 0x9F else 0xBF) c1
                \<and> in_range 0x80 0xBF c2
             then ((byte c0 - 0xE0) * 4096 + (byte c1 - 0x80) * 64 + (byte c2 - 0x80), 3)
             else (RuneError, 1)
         | _ \<Rightarrow> (RuneError, 1))
      else if byte c0 < 0xF5 then
        (case cs of
           c1 # c2 # c3 # _ \<Rightarrow>
             if in_range (if byte c0 = 0xF0 then 0x90 else 0x80)
                         (if byte c0 = 0xF4 then 0x8F else 0xBF) c1
                \<and> in_range 0x80 0xBF c2 \<and> in_range 0x80 0xBF c3
             then ((byte c0 - 0xF0) * 262144 + (byte c1 - 0x80) * 4096
                   + (byte c2 - 0x80) * 64 + (byte c3 - 0x80), 4)
             else (RuneError, 1)
         | _ \<Rightarrow> (RuneError, 1))
      else (RuneError, 1))"

text \<open>
  \<^verbatim>\<open>utf8.EncodeRune\<close>: the UTF-8 bytes of a rune; a surrogate or a value above
  U+10FFFF is written as U+FFFD.
\<close>

definition EncodeRune :: "nat \<Rightarrow> string" where
  "EncodeRune r =
     (if r \<le> 0x7F then [char_of r]
      else if r \<le> 0x7FF then [char_of (0xC0 + r div 64), char_of (0x80 + r mod 64)]
      else if r > 0x10FFFF \<or> (0xD800 \<le> r \<and> r \<le> 0xDFFF) then [CHR 0xEF, CHR 0xBF, CHR 0xBD]
      else if r \<le> 0xFFFF then
        [char_of (0xE0 + r div 4096), char_of (0x80 + (r div 64) mod 64),
         char_of (0x80 + r mod 64)]
      else
        [char_of (0xF0 + r div 262144), char_of (0x80 + (r div 4096) mod 64),
         char_of (0x80 + (r div 64) mod 64), char_of (0x80 + r mod 64)])"

text \<open>\<^verbatim>\<open>utf8.ValidString\<close>: every rune of the string is a valid encoding.\<close>

fun ValidString :: "string \<Rightarrow> bool" where
  "ValidString [] = True"
| "ValidString (c # cs) =
     (if byte c < 0x80 then ValidString cs
      else
        (case DecodeRune (c # cs) of
           (r, w) \<Rightarrow>
             if r = RuneError \<and> w = 1 then False
             else ValidString (drop (w - 1) cs)))"

text \<open>
  The string that \<^verbatim>\<open>encoding/json\<close> stands for when it is given \<open>s\<close>: each byte
  that starts no valid UTF-8 sequence is replaced by the three bytes of U+FFFD, and
  everything else is kept.
\<close>

fun coerce_utf8 :: "string \<Rightarrow> string" where
  "coerce_utf8 [] = []"
| "coerce_utf8 (c # cs) =
     (if byte c < 0x80 then c # coerce_utf8 cs
      else
        (case DecodeRune (c # cs) of
           (r, w) \<Rightarrow>
             if r = RuneError \<and> w = 1 then [CHR 0xEF, CHR 0xBF, CHR 0xBD] @ coerce_utf8 cs
             else (c # take (w - 1) cs) @ coerce_utf8 (drop (w - 1) cs)))"

text \<open>\<^verbatim>\<open>utf16.IsSurrogate\<close> and \<^verbatim>\<open>utf16.DecodeRune\<close>.\<close>

definition IsSurrogate :: "nat \<Rightarrow> bool" where
  "IsSurrogate r = (0xD800 \<le> r \<and> r < 0xE000)"

definition utf16_DecodeRune :: "nat \<Rightarrow> nat \<Rightarrow> nat" where
  "utf16_DecodeRune r1 r2 =
     (if 0xD800 \<le> r1 \<and> r1 < 0xDC00 \<and> 0xDC00 \<le> r2 \<and> r2 < 0xE000
      then (r1 - 0xD800) * 1024 + (r2 - 0xDC00) + 0x10000
      else RuneError)"

section \<open>JSON encoding of a Message (encoding/json, Marshal)\<close>

text \<open>
  The two structs of \<^verbatim>\<open>sendblue.go\<close>. Their JSON keys are the struct tags.
\<close>

record Message =
  Number :: string
  Content :: string

record MessageResponse =
  Status :: string
  ErrorCode :: string
  FromNumber :: string
  MessageHandle :: string

text \<open>
  \<^verbatim>\<open>json.Marshal\<close> writes a string between double quotes. With HTML escaping on (the
  default of \<^verbatim>\<open>Marshal\<close>) the bytes 0x20 to 0x7F other than the double quote, the
  backslash, the angle brackets and the ampersand are copied. The others are escaped:
  backslash and double quote with a backslash; backspace, form feed, newline, carriage
  return and tab by their letter; every other byte below 0x80 as a four-digit unicode
  escape. Above 0x7F a valid UTF-8 sequence is copied, except U+2028 and U+2029, which
  are escaped; a byte that does not start a valid UTF-8 sequence is written as the
  escape of U+FFFD. (Releases before Go 1.22 write backspace and form feed as unicode
  escapes; both forms decode to the same byte.)
\<close>

definition htmlSafe :: "char \<Rightarrow> bool" where
  "htmlSafe c =
     (0x20 \<le> byte c \<and> byte c < 0x80 \<and> c \<noteq> dquote \<and> c \<noteq> bslash
      \<and> c \<noteq> CHR ''<'' \<and> c \<noteq> CHR ''>'' \<and> c \<noteq> CHR ''&'')"

definition hex :: "nat \<Rightarrow> char" where
  "hex n = ''0123456789abcdef'' ! n"

definition escape_byte :: "char \<Rightarrow> string" where
  "escape_byte c =
     (if c = bslash \<or> c = dquote then [bslash, c]
      else if byte c = 0x08 then [bslash, CHR ''b'']
      else if byte c = 0x0C then [bslash, CHR ''f'']
      else if byte c = 0x0A then [bslash, CHR ''n'']
      else if byte c = 0x0D then [bslash, CHR ''r'']
      else if byte c = 0x09 then [bslash, CHR ''t'']
      else [bslash, CHR ''u'', CHR ''0'', CHR ''0'', hex (byte c div 16), hex (byte c mod 16)])"

fun appendString_body :: "string \<Rightarrow> string" where
  "appendString_body [] = []"
| "appendString_body (c # cs) =
     (if byte c < 0x80 then
        (if htmlSafe c then [c] else escape_byte c) @ appendString_body cs
      else
        (case DecodeRune (c # cs) of
           (r, w) \<Rightarrow>
             if r = RuneError \<and> w = 1 then
               [bslash, CHR ''u'', CHR ''f'', CHR ''f'', CHR ''f'', CHR ''d'']
               @ appendString_body cs
             else if r = 0x2028 \<or> r = 0x2029 then
               [bslash, CHR ''u'', CHR ''2'', CHR ''0'', CHR ''2'', hex (r mod 16)]
               @ appendString_body (drop (w - 1) cs)
             else
               (c # take (w - 1) cs) @ appendString_body (drop (w - 1) cs)))"

definition appendString :: "string \<Rightarrow> string" where
  "appendString src = dquote # appendString_body src @ [dquote]"

text \<open>
  \<^verbatim>\<open>json.Marshal(Message{...})\<close>: the fields in declaration order under their tags.
  Marshalling a struct of strings has no error case; the result type keeps the error
  branch that \<^verbatim>\<open>SendMessage\<close> tests.
\<close>

datatype json_error =
    SyntaxError
  | UnmarshalTypeError string string
  | UnsupportedValueError

definition Marshal_Message :: "Message \<Rightarrow> json_error + string" where
  \<open>Marshal_Message m =
     Inr (''{"number":'' @ appendString (Number m) @ '',"content":'' @ appendString (Content m) @ ''}'')\<close>

section \<open>JSON decoding (encoding/json, Unmarshal)\<close>

text \<open>
  \<^verbatim>\<open>json.Unmarshal\<close> first checks that the whole input is one valid JSON value
  (its scanner), and only then decodes it. The model does the same in two passes: the
  bytes are split into tokens, the tokens are read by the scanner's automaton into a
  JSON value, and the value is decoded into the struct.
\<close>

subsection \<open>String literals\<close>

definition isHex :: "char \<Rightarrow> bool" where
  "isHex c = (in_range 0x30 0x39 c \<or> in_range 0x61 0x66 c \<or> in_range 0x41 0x46 c)"

text \<open>
  The scanner inside a string literal (\<^verbatim>\<open>stateInString\<close>, \<^verbatim>\<open>stateInStringEsc\<close>,
  \<^verbatim>\<open>stateInStringEscU\<close>): the number of bytes before the closing quote, or \<open>None\<close>
  for a control character, a bad escape or a missing quote.
\<close>

fun scan_string :: "string \<Rightarrow> nat option" where
  "scan_string [] = None"
| "scan_string (c # cs) =
     (if c = dquote then Some 0
      else if c = bslash then
        (case cs of
           [] \<Rightarrow> None
         | e # cs' \<Rightarrow>
             if e \<in> set [CHR ''b'', CHR ''f'', CHR ''n'', CHR ''r'', CHR ''t'', bslash, CHR ''/'', dquote]
             then map_option (\<lambda>n. n + 2) (scan_string cs')
             else if e = CHR ''u'' then
               (case cs' of
                  h1 # h2 # h3 # h4 # cs'' \<Rightarrow>
                    if isHex h1 \<and> isHex h2 \<and> isHex h3 \<and> isHex h4
                    then map_option (\<lambda>n. n + 6) (scan_string cs'')
                    else None
                | _ \<Rightarrow> None)
             else None)
      else if byte c < 0x20 then None
      else map_option Suc (scan_string cs))"

text \<open>\<^verbatim>\<open>getu4\<close>: the value of a unicode escape at the head of the bytes.\<close>

definition hexval :: "char \<Rightarrow> nat option" where
  "hexval c =
     (if in_range 0x30 0x39 c then Some (byte c - 0x30)
      else if in_range 0x61 0x66 c then Some (byte c - 0x61 + 10)
      else if in_range 0x41 0x46 c then Some (byte c - 0x41 + 10)
      else None)"

fun getu4 :: "string \<Rightarrow> nat option" where
  "getu4 (c0 # c1 # h1 # h2 # h3 # h4 # _) =
     (if c0 \<noteq> bslash \<or> c1 \<noteq> CHR ''u'' then None
      else
        (case (hexval h1, hexval h2, hexval h3, hexval h4) of
           (Some a, Some b, Some c, Some d) \<Rightarrow> Some (((a * 16 + b) * 16 + c) * 16 + d)
         | _ \<Rightarrow> None))"
| "getu4 _ = None"

text \<open>
  \<^verbatim>\<open>unquoteBytes\<close>, on the bytes between the quotes: escapes are replaced by what
  they stand for, a surrogate pair of unicode escapes by its rune, a lone surrogate by
  U+FFFD, and bytes that are not valid UTF-8 by U+FFFD.
\<close>

fun unquote_body :: "string \<Rightarrow> string option" where
  "unquote_body [] = Some []"
| "unquote_body (c # cs) =
     (if c = bslash then
        (case cs of
           [] \<Rightarrow> None
         | e # cs' \<Rightarrow>
             if e = dquote \<or> e = bslash \<or> e = CHR ''/'' \<or> e = CHR 0x27
             then map_option ((#) e) (unquote_body cs')
             else if e = CHR ''b'' then map_option ((#) (CHR 0x08)) (unquote_body cs')
             else if e = CHR ''f'' then map_option ((#) (CHR 0x0C)) (unquote_body cs')
             else if e = CHR ''n'' then map_option ((#) (CHR 0x0A)) (unquote_body cs')
             else if e = CHR ''r'' then map_option ((#) (CHR 0x0D)) (unquote_body cs')
             else if e = CHR ''t'' then map_option ((#) (CHR 0x09)) (unquote_body cs')
             else if e = CHR ''u'' then
               (case getu4 (c # cs) of
                  None \<Rightarrow> None
                | Some rr \<Rightarrow>
                    if IsSurrogate rr then
                      (case getu4 (drop 4 cs') of
                         None \<Rightarrow>
                           map_option ((@) (EncodeRune RuneError)) (unquote_body (drop 4 cs'))
                       | Some rr1 \<Rightarrow>
                           if utf16_DecodeRune rr rr1 \<noteq> RuneError
                           then map_option ((@) (EncodeRune (utf16_DecodeRune rr rr1)))
                                  (unquote_body (drop 10 cs'))
                           else map_option ((@) (EncodeRune RuneError))
                                  (unquote_body (drop 4 cs')))
                    else map_option ((@) (EncodeRune rr)) (unquote_body (drop 4 cs')))
             else None)
      else if c = dquote \<or> byte c < 0x20 then None
      else if byte c < 0x80 then map_option ((#) c) (unquote_body cs)
      else
        (case DecodeRune (c # cs) of
           (rr, w) \<Rightarrow> map_option ((@) (EncodeRune rr)) (unquote_body (drop (w - 1) cs))))"

subsection \<open>Numbers\<close>

text \<open>
  The scanner's number states. \<open>scan_number st cs\<close> is the number of bytes of \<open>cs\<close>
  that continue the number, or \<open>None\<close> when the number stops in a state that cannot
  end it (after the sign, the point, the exponent mark or the exponent sign).
\<close>

datatype number_state = stateNeg | state0 | state1 | stateDot | stateDot0 | stateE | stateESign | stateE0

definition isDigit :: "char \<Rightarrow> bool" where
  "isDigit c = in_range 0x30 0x39 c"

definition number_end :: "number_state \<Rightarrow> nat option" where
  "number_end st = (if st \<in> set [state0, state1, stateDot0, stateE0] then Some 0 else None)"

fun scan_number :: "number_state \<Rightarrow> string \<Rightarrow> nat option" where
  "scan_number st [] = number_end st"
| "scan_number st (c # cs) =
     (case st of
        stateNeg \<Rightarrow>
          if c = CHR ''0'' then map_option Suc (scan_number state0 cs)
          else if isDigit c then map_option Suc (scan_number state1 cs)
          else None
      | state0 \<Rightarrow>
          if c = CHR ''.'' then map_option Suc (scan_number stateDot cs)
          else if c = CHR ''e'' \<or> c = CHR ''E'' then map_option Suc (scan_number stateE cs)
          else Some 0
      | state1 \<Rightarrow>
          if isDigit c then map_option Suc (scan_number state1 cs)
          else if c = CHR ''.'' then map_option Suc (scan_number stateDot cs)
          else if c = CHR ''e'' \<or> c = CHR ''E'' then map_option Suc (scan_number stateE cs)
          else Some 0
      | stateDot \<Rightarrow>
          if isDigit c then map_option Suc (scan_number stateDot0 cs) else None
      | stateDot0 \<Rightarrow>
          if isDigit c then map_option Suc (scan_number stateDot0 cs)
          else if c = CHR ''e'' \<or> c = CHR ''E'' then map_option Suc (scan_number stateE cs)
          else Some 0
      | stateE \<Rightarrow>
          if c = CHR ''+'' \<or> c = CHR ''-'' then map_option Suc (scan_number stateESign cs)
          else if isDigit c then map_option Suc (scan_number stateE0 cs)
          else None
      | stateESign \<Rightarrow>
          if isDigit c then map_option Suc (scan_number stateE0 cs) else None
      | stateE0 \<Rightarrow>
          if isDigit c then map_option Suc (scan_number stateE0 cs) else Some 0)"

subsection \<open>Tokens\<close>

datatype token =
    TBeginObject | TEndObject | TBeginArray | TEndArray | TColon | TComma
  | TString string | TNumber string | TTrue | TFalse | TNull

definition isSpace :: "char \<Rightarrow> bool" where
  "isSpace c = (c = CHR 0x20 \<or> c = CHR 0x09 \<or> c = CHR 0x0D \<or> c = CHR 0x0A)"

text \<open>
  The bytes as tokens; \<open>None\<close> when some byte starts no token or a token is
  malformed. A string token holds the unquoted string.
\<close>

fun tokenize :: "string \<Rightarrow> token list option" where
  "tokenize [] = Some []"
| "tokenize (c # cs) =
     (if isSpace c then tokenize cs
      else if c = CHR ''{'' then map_option ((#) TBeginObject) (tokenize cs)
      else if c = CHR ''}'' then map_option ((#) TEndObject) (tokenize cs)
      else if c = CHR ''['' then map_option ((#) TBeginArray) (tokenize cs)
      else if c = CHR '']'' then map_option ((#) TEndArray) (tokenize cs)
      else if c = CHR '':'' then map_option ((#) TColon) (tokenize cs)
      else if c = CHR '','' then map_option ((#) TComma) (tokenize cs)
      else if c = dquote then
        (case scan_string cs of
           None \<Rightarrow> None
         | Some n \<Rightarrow>
             (case unquote_body (take n cs) of
                None \<Rightarrow> None
              | Some s \<Rightarrow> map_option ((#) (TString s)) (tokenize (drop (Suc n) cs))))
      else if c = CHR ''-'' \<or> isDigit c then
        (case scan_number (if c = CHR ''-'' then stateNeg else if c = CHR ''0'' then state0 else state1) cs of
           None \<Rightarrow> None
         | Some n \<Rightarrow> map_option ((#) (TNumber (c # take n cs))) (tokenize (drop n cs)))
      else if c = CHR ''t'' then
        (if take 3 cs = ''rue'' then map_option ((#) TTrue) (tokenize (drop 3 cs)) else None)
      else if c = CHR ''f'' then
        (if take 4 cs = ''alse'' then map_option ((#) TFalse) (tokenize (drop 4 cs)) else None)
      else if c = CHR ''n'' then
        (if take 3 cs = ''ull'' then map_option ((#) TNull) (tokenize (drop 3 cs)) else None)
      else None)"

subsection \<open>The scanner's automaton and JSON values\<close>

datatype json =
    JNull | JBool bool | JNumber string | JString string
  | JArray "json list" | JObject "(string \<times> json) list"

text \<open>
  The stack of open arrays and objects (the scanner's \<^verbatim>\<open>parseState\<close>), each with the
  elements read so far; an open object also holds the key whose value is awaited.
\<close>

datatype frame = FArray "json list" | FObject "(string \<times> json) list" "string option"

datatype step =
    stateBeginValue | stateBeginValueOrEmpty | stateBeginStringOrEmpty | stateBeginString
  | stateEndObjectKey | stateEndValue | stateEndTop

type_synonym scanner = "step \<times> frame list \<times> json option"

definition maxNestingDepth :: nat where
  "maxNestingDepth = 10000"

fun value_done :: "json \<Rightarrow> frame list \<Rightarrow> scanner option" where
  "value_done v [] = Some (stateEndTop, [], Some v)"
| "value_done v (FArray vs # st) = Some (stateEndValue, FArray (vs @ [v]) # st, None)"
| "value_done v (FObject kvs (Some k) # st) =
     Some (stateEndValue, FObject (kvs @ [(k, v)]) None # st, None)"
| "value_done v (FObject kvs None # st) = None"

definition begin_value :: "token \<Rightarrow> frame list \<Rightarrow> scanner option" where
  "begin_value t st =
     (case t of
        TString s \<Rightarrow> value_done (JString s) st
      | TNumber n \<Rightarrow> value_done (JNumber n) st
      | TTrue \<Rightarrow> value_done (JBool True) st
      | TFalse \<Rightarrow> value_done (JBool False) st
      | TNull \<Rightarrow> value_done JNull st
      | TBeginArray \<Rightarrow>
          if length st < maxNestingDepth
          then Some (stateBeginValueOrEmpty, FArray [] # st, None) else None
      | TBeginObject \<Rightarrow>
          if length st < maxNestingDepth
          then Some (stateBeginStringOrEmpty, FObject [] None # st, None) else None
      | _ \<Rightarrow> None)"

definition begin_string :: "token \<Rightarrow> frame list \<Rightarrow> scanner option" where
  "begin_string t st =
     (case (t, st) of
        (TString k, FObject kvs None # st') \<Rightarrow>
          Some (stateEndObjectKey, FObject kvs (Some k) # st', None)
      | _ \<Rightarrow> None)"

fun scan_step :: "scanner \<Rightarrow> token \<Rightarrow> scanner option" where
  "scan_step (stateBeginValue, st, r) t = begin_value t st"
| "scan_step (stateBeginValueOrEmpty, st, r) t =
     (if t = TEndArray then
        (case st of FArray vs # st' \<Rightarrow> value_done (JArray vs) st' | _ \<Rightarrow> None)
      else begin_value t st)"
| "scan_step (stateBeginStringOrEmpty, st, r) t =
     (if t = TEndObject then
        (case st of FObject kvs None # st' \<Rightarrow> value_done (JObject kvs) st' | _ \<Rightarrow> None)
      else begin_string t st)"
| "scan_step (stateBeginString, st, r) t = begin_string t st"
| "scan_step (stateEndObjectKey, st, r) t =
     (if t = TColon then Some (stateBeginValue, st, None) else None)"
| "scan_step (stateEndValue, st, r) t =
     (case st of
        FArray vs # st' \<Rightarrow>
          if t = TComma then Some (stateBeginValue, st, None)
          else if t = TEndArray then value_done (JArray vs) st'
          else None
      | FObject kvs None # st' \<Rightarrow>
          if t = TComma then Some (stateBeginString, st, None)
          else if t = TEndObject then value_done (JObject kvs) st'
          else None
      | _ \<Rightarrow> None)"
| "scan_step (stateEndTop, st, r) t = None"

fun scan_tokens :: "scanner \<Rightarrow> token list \<Rightarrow> scanner option" where
  "scan_tokens s [] = Some s"
| "scan_tokens s (t # ts) =
     (case scan_step s t of None \<Rightarrow> None | Some s' \<Rightarrow> scan_tokens s' ts)"

text \<open>
  \<^verbatim>\<open>checkValid\<close>: the input is valid when the automaton ends after one complete
  top-level value. \<open>parse_json\<close> gives that value.
\<close>

definition parse_json :: "string \<Rightarrow> json option" where
  "parse_json data =
     (case tokenize data of
        None \<Rightarrow> None
      | Some ts \<Rightarrow>
          (case scan_tokens (stateBeginValue, [], None) ts of
             Some (stateEndTop, _, Some v) \<Rightarrow> Some v
           | _ \<Rightarrow> None))"

subsection \<open>Decoding into a struct of string fields\<close>

text \<open>
  A key selects the field whose tag equals it, or else the first field whose tag equals
  it under case folding. \<^verbatim>\<open>foldName\<close> maps ASCII letters to upper case and every
  other rune to the least rune of its fold set; the tags here are ASCII, and the only
  runes above 0x7F whose fold set holds an ASCII letter are U+212A (Kelvin sign, with K)
  and U+017F (long s, with S), so \<open>foldRune\<close> moves these two and no other.
\<close>

definition foldRune :: "nat \<Rightarrow> nat" where
  "foldRune r = (if r = 0x212A then 0x4B else if r = 0x17F then 0x53 else r)"

fun foldName :: "string \<Rightarrow> string" where
  "foldName [] = []"
| "foldName (c # cs) =
     (if byte c < 0x80 then
        (if in_range 0x61 0x7A c then char_of (byte c - 0x20) else c) # foldName cs
      else
        (case DecodeRune (c # cs) of
           (r, w) \<Rightarrow> EncodeRune (foldRune r) @ foldName (drop (w - 1) cs)))"

definition find_field :: "string list \<Rightarrow> string \<Rightarrow> string option" where
  "find_field tags key =
     (case List.find (\<lambda>f. f = key) tags of
        Some f \<Rightarrow> Some f
      | None \<Rightarrow> List.find (\<lambda>f. foldName f = foldName key) tags)"

fun json_kind :: "json \<Rightarrow> string" where
  "json_kind JNull = ''null''"
| "json_kind (JBool b) = ''bool''"
| "json_kind (JNumber n) = ''number''"
| "json_kind (JString s) = ''string''"
| "json_kind (JArray vs) = ''array''"
| "json_kind (JObject kvs) = ''object''"

text \<open>\<^verbatim>\<open>saveError\<close> keeps the first error; decoding goes on after it.\<close>

definition saveError :: "json_error option \<Rightarrow> json_error \<Rightarrow> json_error option" where
  "saveError saved e = (case saved of None \<Rightarrow> Some e | Some e0 \<Rightarrow> Some e0)"

text \<open>
  The members of an object, in order: a member whose key selects no field is skipped; a
  string is stored in the field; \<open>null\<close> leaves the field as it is; any other value is
  an \<^verbatim>\<open>UnmarshalTypeError\<close>.
\<close>

fun decode_members ::
  "string list \<Rightarrow> (string \<Rightarrow> string \<Rightarrow> 's \<Rightarrow> 's) \<Rightarrow> (string \<times> json) list
     \<Rightarrow> 's \<times> json_error option \<Rightarrow> 's \<times> json_error option" where
  "decode_members tags setf [] acc = acc"
| "decode_members tags setf ((k, v) # kvs) (s, err) =
     decode_members tags setf kvs
       (case find_field tags k of
          None \<Rightarrow> (s, err)
        | Some f \<Rightarrow>
            (case v of
               JString x \<Rightarrow> (setf f x s, err)
             | JNull \<Rightarrow> (s, err)
             | _ \<Rightarrow> (s, saveError err (UnmarshalTypeError (json_kind v) f))))"

text \<open>
  At the top level \<open>null\<close> leaves the struct as it is, an object is decoded member by
  member, and any other value is an \<^verbatim>\<open>UnmarshalTypeError\<close>.
\<close>

definition decode_struct ::
  "string list \<Rightarrow> (string \<Rightarrow> string \<Rightarrow> 's \<Rightarrow> 's) \<Rightarrow> json \<Rightarrow> 's \<Rightarrow> 's \<times> json_error option" where
  "decode_struct tags setf v target =
     (case v of
        JNull \<Rightarrow> (target, None)
      | JObject kvs \<Rightarrow> decode_members tags setf kvs (target, None)
      | _ \<Rightarrow> (target, Some (UnmarshalTypeError (json_kind v) [])))"

definition Unmarshal_struct ::
  "string list \<Rightarrow> (string \<Rightarrow> string \<Rightarrow> 's \<Rightarrow> 's) \<Rightarrow> string \<Rightarrow> 's \<Rightarrow> 's \<times> json_error option" where
  "Unmarshal_struct tags setf data target =
     (case parse_json data of
        None \<Rightarrow> (target, Some SyntaxError)
      | Some v \<Rightarrow> decode_struct tags setf v target)"

definition Message_fields :: "string list" where
  "Message_fields = [''number'', ''content'']"

definition Message_set :: "string \<Rightarrow> string \<Rightarrow> Message \<Rightarrow> Message" where
  "Message_set f x m =
     (if f = ''number'' then m\<lparr>Number := x\<rparr>
      else if f = ''content'' then m\<lparr>Content := x\<rparr>
      else m)"

definition MessageResponse_fields :: "string list" where
  "MessageResponse_fields = [''status'', ''error_code'', ''from_number'', ''message_handle'']"

definition MessageResponse_set :: "string \<Rightarrow> string \<Rightarrow> MessageResponse \<Rightarrow> MessageResponse" where
  "MessageResponse_set f x m =
     (if f = ''status'' then m\<lparr>Status := x\<rparr>
      else if f = ''error_code'' then m\<lparr>ErrorCode := x\<rparr>
      else if f = ''from_number'' then m\<lparr>FromNumber := x\<rparr>
      else if f = ''message_handle'' then m\<lparr>MessageHandle := x\<rparr>
      else m)"

text \<open>
  \<^verbatim>\<open>json.Unmarshal(data, msg)\<close> with \<^verbatim>\<open>msg := new(Message)\<close>, and
  \<^verbatim>\<open>json.Unmarshal(rbody, &mresp)\<close> with \<^verbatim>\<open>var mresp MessageResponse\<close>: the target
  starts as the zero value.
\<close>

definition Unmarshal_Message :: "string \<Rightarrow> Message \<times> json_error option" where
  "Unmarshal_Message data =
     Unmarshal_struct Message_fields Message_set data \<lparr>Number = [], Content = []\<rparr>"

definition Unmarshal_MessageResponse :: "string \<Rightarrow> MessageResponse \<times> json_error option" where
  "Unmarshal_MessageResponse data =
     Unmarshal_struct MessageResponse_fields MessageResponse_set data
       \<lparr>Status = [], ErrorCode = [], FromNumber = [], MessageHandle = []\<rparr>"

section \<open>The packages around the client: libphonenumber, net/http, io\<close>

text \<open>
  An error value of a package outside the repository is modelled by its message.
\<close>

type_synonym go_error = string

text \<open>
  \<^verbatim>\<open>github.com/ttacon/libphonenumber\<close> is a third-party package; its two functions that
  \<^verbatim>\<open>SendMessage\<close> calls are parameters of the model. \<open>'n\<close> is the type of a parsed
  phone number.
\<close>

datatype PhoneNumberFormat = E164 | INTERNATIONAL | NATIONAL | RFC3966

record 'n libphonenumber =
  Parse :: "string \<Rightarrow> string \<Rightarrow> go_error + 'n"
  Format :: "'n \<Rightarrow> PhoneNumberFormat \<Rightarrow> string"

text \<open>
  An \<^verbatim>\<open>io.ReadCloser\<close>: the bytes that reading it to the end delivers, and the error
  that ends the reading, when there is one. \<^verbatim>\<open>ioutil.ReadAll\<close> returns both.
\<close>

record ReadCloser =
  stream_data :: string
  stream_err :: "go_error option"

definition ReadAll :: "ReadCloser \<Rightarrow> string \<times> go_error option" where
  "ReadAll r = (stream_data r, stream_err r)"

text \<open>
  An \<^verbatim>\<open>http.Request\<close> and an \<^verbatim>\<open>http.Response\<close>, with the fields the client writes
  and reads. The header is a list of keys with their values.
\<close>

type_synonym Header = "(string \<times> string list) list"

record Request =
  Method :: string
  URL :: string
  Header :: Header
  RequestBody :: string

record Response =
  StatusCode :: nat
  Body :: ReadCloser

text \<open>
  \<^verbatim>\<open>textproto.CanonicalMIMEHeaderKey\<close>: a key made of token bytes gets an upper-case
  letter first and after every hyphen, and lower-case letters elsewhere; any other key
  is left as it is. \<^verbatim>\<open>Header.Set\<close> and \<^verbatim>\<open>Header.Get\<close> use the canonical key.
\<close>

definition isTokenByte :: "char \<Rightarrow> bool" where
  "isTokenByte c =
     (in_range 0x30 0x39 c \<or> in_range 0x41 0x5A c \<or> in_range 0x61 0x7A c
      \<or> c \<in> set ''!#$%&*+-.^_|~'' \<or> c = CHR 0x27 \<or> c = CHR 0x60)"

fun canonical :: "bool \<Rightarrow> string \<Rightarrow> string" where
  "canonical upper [] = []"
| "canonical upper (c # cs) =
     (if upper \<and> in_range 0x61 0x7A c then char_of (byte c - 0x20)
      else if \<not> upper \<and> in_range 0x41 0x5A c then char_of (byte c + 0x20)
      else c) # canonical (c = CHR ''-'') cs"

definition CanonicalMIMEHeaderKey :: "string \<Rightarrow> string" where
  "CanonicalMIMEHeaderKey s = (if list_all isTokenByte s then canonical True s else s)"

definition Header_Set :: "string \<Rightarrow> string \<Rightarrow> Header \<Rightarrow> Header" where
  "Header_Set key val h =
     (CanonicalMIMEHeaderKey key, [val]) # filter (\<lambda>kv. fst kv \<noteq> CanonicalMIMEHeaderKey key) h"

definition Header_Get :: "Header \<Rightarrow> string \<Rightarrow> string" where
  "Header_Get h key =
     (case map_of h (CanonicalMIMEHeaderKey key) of Some (v # vs) \<Rightarrow> v | _ \<Rightarrow> [])"

text \<open>
  \<^verbatim>\<open>http.NewRequest\<close> reads an empty method as \<open>GET\<close>, and refuses a method that
  is not a token and a URL that does not parse. Of the checks of \<^verbatim>\<open>url.Parse\<close> the model keeps the one on control characters;
  \<^verbatim>\<open>SendMessage\<close> passes the constant \<open>endpoint\<close>, which passes them all.
\<close>

definition validMethod :: "string \<Rightarrow> bool" where
  "validMethod m = (m \<noteq> [] \<and> list_all isTokenByte m)"

definition NewRequest :: "string \<Rightarrow> string \<Rightarrow> string \<Rightarrow> go_error + Request" where
  "NewRequest method0 url body =
     (let method = (if method0 = [] then ''GET'' else method0)
      in if \<not> validMethod method then Inl ''net/http: invalid method''
         else if list_ex (\<lambda>c. byte c < 0x20 \<or> byte c = 0x7F) url
         then Inl ''net/url: invalid control character in URL''
         else Inr \<lparr>Method = method, URL = url, Header = [], RequestBody = body\<rparr>)"

section \<open>The client (sendblue.go)\<close>

text \<open>
  The \<^verbatim>\<open>Client\<close> struct. Its field \<^verbatim>\<open>Client\<close> is an \<^verbatim>\<open>*http.Client\<close>, taken to be a
  valid pointer and modelled by its method \<^verbatim>\<open>Do\<close>: a request gives an error or a
  response.
\<close>

type_synonym http_Client = "Request \<Rightarrow> go_error + Response"

record Client =
  APIKey :: string
  SecretKey :: string
  Client :: http_Client

definition NewCustomClient :: "http_Client \<Rightarrow> string \<Rightarrow> string \<Rightarrow> Client" where
  "NewCustomClient client api secret = \<lparr>APIKey = api, SecretKey = secret, Client = client\<rparr>"

text \<open>
  The errors the two functions return: \<^verbatim>\<open>ErrParse\<close>, and the errors built with
  \<^verbatim>\<open>fmt.Errorf\<close>, which wrap the error of the failed step.
\<close>

datatype error =
    ErrParse
  | FailedMarshalRequestBody json_error
  | FailedCreatePostRequest go_error
  | FailedPerformRequest go_error
  | FailedReadResponseBody go_error
  | FailedUnmarshalResponseBody json_error
  | FailedToSend
  | FailedReadRequestBody go_error
  | FailedUnmarshalIntoMessage json_error

text \<open>
  What a call does to the world outside it, in order: a request given to the HTTP client,
  a stream read to its end, a stream closed.
\<close>

datatype event = EvDo Request | EvReadAll ReadCloser | EvClose ReadCloser

definition endpoint :: string where
  "endpoint = ''https://bluetexts-272923.uc.r.appspot.com/api/send-message''"

text \<open>
  \<^verbatim>\<open>SendMessage\<close>. The result is the returned pair (a string and an error, \<open>None\<close> for
  \<^verbatim>\<open>nil\<close>), the client after the call, and the events of the call. The deferred
  \<^verbatim>\<open>resp.Body.Close()\<close> is registered once \<^verbatim>\<open>Do\<close> has succeeded and runs when the
  function returns.
\<close>

definition SendMessage ::
  "'n libphonenumber \<Rightarrow> Client \<Rightarrow> string \<Rightarrow> string
     \<Rightarrow> (string \<times> error option) \<times> Client \<times> event list" where
  "SendMessage lib c to body =
     (case Parse lib to ''US'' of
        Inl err \<Rightarrow> (([], Some ErrParse), c, [])
      | Inr num \<Rightarrow>
          (case Marshal_Message \<lparr>Number = Format lib num E164, Content = body\<rparr> of
             Inl err \<Rightarrow> (([], Some (FailedMarshalRequestBody err)), c, [])
           | Inr buf \<Rightarrow>
               (case NewRequest ''POST'' endpoint buf of
                  Inl err \<Rightarrow> (([], Some (FailedCreatePostRequest err)), c, [])
                | Inr req0 \<Rightarrow>
                    (let req = req0\<lparr>Header :=
                           Header_Set ''Content-Type'' ''application/json''
                             (Header_Set ''sb-api-secret-key'' (SecretKey c)
                               (Header_Set ''sb-api-key-id'' (APIKey c) (Header req0)))\<rparr>
                     in case Client c req of
                          Inl err \<Rightarrow> (([], Some (FailedPerformRequest err)), c, [EvDo req])
                        | Inr resp \<Rightarrow>
                            (let events = [EvDo req, EvReadAll (Body resp), EvClose (Body resp)]
                             in case ReadAll (Body resp) of
                                  (rbody, Some err) \<Rightarrow>
                                    (([], Some (FailedReadResponseBody err)), c, events)
                                | (rbody, None) \<Rightarrow>
                                    (case Unmarshal_MessageResponse rbody of
                                       (mresp, Some err) \<Rightarrow>
                                         (([], Some (FailedUnmarshalResponseBody err)), c, events)
                                     | (mresp, None) \<Rightarrow>
                                         if Status mresp = ''ERROR''
                                         then (([], Some FailedToSend), c, events)
                                         else ((FromNumber mresp, None), c, events)))))))"

text \<open>
  \<^verbatim>\<open>ReadWebhook\<close>. The result is the returned pair (a message, \<open>None\<close> for the
  \<^verbatim>\<open>nil\<close> pointer, and an error) and the events of the call. The source registers the
  deferred \<^verbatim>\<open>r.Close()\<close> after the test of the read error.
\<close>

definition ReadWebhook :: "ReadCloser \<Rightarrow> (Message option \<times> error option) \<times> event list" where
  "ReadWebhook r =
     (case ReadAll r of
        (data, Some err) \<Rightarrow> ((None, Some (FailedReadRequestBody err)), [EvReadAll r])
      | (data, None) \<Rightarrow>
          (case Unmarshal_Message data of
             (msg, Some err) \<Rightarrow>
               ((None, Some (FailedUnmarshalIntoMessage err)), [EvReadAll r, EvClose r])
           | (msg, None) \<Rightarrow> ((Some msg, None), [EvReadAll r, EvClose r])))"

section \<open>Which responses decode\<close>

text \<open>
  A member of a response object is accepted when its key selects no field of
  \<^verbatim>\<open>MessageResponse\<close>, or its value is a string or \<open>null\<close>. A response value is
  accepted when it is \<open>null\<close>, or an object all of whose members are accepted.
\<close>

definition accepted_member :: "string \<times> json \<Rightarrow> bool" where
  "accepted_member kv =
     (case find_field MessageResponse_fields (fst kv) of
        None \<Rightarrow> True
      | Some f \<Rightarrow> (case snd kv of JString s \<Rightarrow> True | JNull \<Rightarrow> True | _ \<Rightarrow> False))"

definition accepted_response :: "json \<Rightarrow> bool" where
  "accepted_response v =
     (case v of JNull \<Rightarrow> True | JObject kvs \<Rightarrow> list_all accepted_member kvs | _ \<Rightarrow> False)"

text \<open>
  The response shape in the words of the specification (its section on external
  interfaces): a JSON object with the members \<open>status\<close>, \<open>error_code\<close>,
  \<open>from_number\<close> and \<open>message_handle\<close>, each a string. Read generously, a member may
  be absent (the specification's own example of a good response has no \<open>error_code\<close>).
\<close>

definition spec_response_shape :: "json \<Rightarrow> bool" where
  "spec_response_shape v =
     (case v of
        JObject kvs \<Rightarrow>
          list_all
            (\<lambda>f. case map_of kvs f of None \<Rightarrow> True | Some (JString s) \<Rightarrow> True | Some _ \<Rightarrow> False)
            MessageResponse_fields
      | _ \<Rightarrow> False)"

text \<open>
  What an accepted response object gives for the field with tag \<open>f\<close>: the strings of
  the members whose key selects \<open>f\<close>, in order, of which the last one counts; the empty
  string when there is none, and for \<open>null\<close>.
\<close>

definition field_values :: "string \<Rightarrow> (string \<times> json) list \<Rightarrow> string list" where
  "field_values f kvs =
     concat (map (\<lambda>kv. case snd kv of
                          JString s \<Rightarrow>
                            if find_field MessageResponse_fields (fst kv) = Some f then [s] else []
                        | _ \<Rightarrow> []) kvs)"

definition last_or :: "string \<Rightarrow> string list \<Rightarrow> string" where
  "last_or d xs = (if xs = [] then d else last xs)"

definition effective_field :: "string \<Rightarrow> json \<Rightarrow> string" where
  "effective_field f v = (case v of JObject kvs \<Rightarrow> last_or [] (field_values f kvs) | _ \<Rightarrow> [])"

text \<open>The same for one member, and the member's effect on the struct.\<close>

definition member_values :: "string \<Rightarrow> string \<times> json \<Rightarrow> string list" where
  "member_values f kv =
     (case snd kv of
        JString s \<Rightarrow> if find_field MessageResponse_fields (fst kv) = Some f then [s] else []
      | _ \<Rightarrow> [])"

definition member_store :: "string \<times> json \<Rightarrow> MessageResponse \<Rightarrow> MessageResponse" where
  "member_store kv m =
     (case find_field MessageResponse_fields (fst kv) of
        None \<Rightarrow> m
      | Some f \<Rightarrow> (case snd kv of JString x \<Rightarrow> MessageResponse_set f x m | _ \<Rightarrow> m))"

section \<open>Stand-ins for the injected parts\<close>

text \<open>
  Concrete values for the parameters, used to run the model on examples: an HTTP client
  that answers every request with a given body, an HTTP client that fails, and a
  phone-number package that keeps the digits of its input, accepts exactly ten of them
  and formats them after \<open>+1\<close>. They stand for nothing in the repository.
\<close>

definition stub_body :: "string \<Rightarrow> ReadCloser" where
  "stub_body data = \<lparr>stream_data = data, stream_err = None\<rparr>"

definition stub_transport :: "string \<Rightarrow> http_Client" where
  "stub_transport data = (\<lambda>req. Inr \<lparr>StatusCode = 200, Body = stub_body data\<rparr>)"

definition failing_transport :: http_Client where
  "failing_transport = (\<lambda>req. Inl ''connection refused'')"

definition stub_lib :: "string libphonenumber" where
  "stub_lib =
     \<lparr>Parse = (\<lambda>s region. if length (filter isDigit s) = 10 then Inr (filter isDigit s)
                             else Inl ''not a number''),
      Format = (\<lambda>n f. ''+1'' @ n)\<rparr>"

text \<open>The requests that a list of events gave to the HTTP client.\<close>

fun requests_of :: "event list \<Rightarrow> Request list" where
  "requests_of [] = []"
| "requests_of (EvDo req # es) = req # requests_of es"
| "requests_of (e # es) = requests_of es"

text \<open>The streams that a list of events closed.\<close>

fun closed_of :: "event list \<Rightarrow> ReadCloser list" where
  "closed_of [] = []"
| "closed_of (EvClose r # es) = r # closed_of es"
| "closed_of (e # es) = closed_of es"

section \<open>Properties\<close>

subsection \<open>The path to the response\<close>

lemma NewRequest_endpoint:
  "NewRequest ''POST'' endpoint buf
     = Inr \<lparr>Method = ''POST'', URL = endpoint, Header = [], RequestBody = buf\<rparr>"
  by (simp add: NewRequest_def validMethod_def isTokenByte_def in_range_def byte_def endpoint_def
        Let_def)

text \<open>
  Once the number has parsed and the HTTP client answers with a body that reads without
  error, the returned pair is decided by the decoding of the body alone.
\<close>

lemma SendMessage_after_response:
  assumes "Parse lib to ''US'' = Inr num"
    and "\<And>req. \<exists>resp. Client c req = Inr resp \<and> ReadAll (Body resp) = (rbody, None)"
  shows "fst (SendMessage lib c to body) =
     (case Unmarshal_MessageResponse rbody of
        (mresp, Some err) \<Rightarrow> ([], Some (FailedUnmarshalResponseBody err))
      | (mresp, None) \<Rightarrow>
          if Status mresp = ''ERROR'' then ([], Some FailedToSend) else (FromNumber mresp, None))"
proof -
  let ?req = \<open>\<lparr>Method = ''POST'', URL = endpoint,
      Header = Header_Set ''Content-Type'' ''application/json''
                 (Header_Set ''sb-api-secret-key'' (SecretKey c)
                   (Header_Set ''sb-api-key-id'' (APIKey c) [])),
      RequestBody = ''{"number":'' @ appendString (Format lib num E164)
                    @ '',"content":'' @ appendString body @ ''}''\<rparr>\<close>
  from assms(2) obtain resp
    where r: "Client c ?req = Inr resp" "ReadAll (Body resp) = (rbody, None)"
    by blast
  show ?thesis
    using assms(1) r
    by (simp add: SendMessage_def Marshal_Message_def NewRequest_endpoint Let_def
          split: prod.split option.split)
qed

lemma stub_lib_parse: "Parse stub_lib ''555-123-4567'' ''US'' = Inr ''5551234567''"
  by (simp add: stub_lib_def isDigit_def in_range_def byte_def)

lemma stub_transport_responds:
  "\<exists>resp. Client (NewCustomClient (stub_transport data) k s) req = Inr resp
          \<and> ReadAll (Body resp) = (data, None)"
  by (simp add: NewCustomClient_def stub_transport_def stub_body_def ReadAll_def)

lemma decode_members_error:
  "snd (decode_members MessageResponse_fields setf kvs (s, err)) = None
     \<longleftrightarrow> err = None \<and> list_all accepted_member kvs"
proof (induction kvs arbitrary: s err)
  case Nil
  then show ?case by simp
next
  case (Cons kv kvs)
  obtain k v where kv: "kv = (k, v)" by (cases kv)
  show ?case
    unfolding kv
    by (cases "find_field MessageResponse_fields k"; cases v)
       (simp_all add: Cons.IH accepted_member_def saveError_def split: option.split)
qed

lemma Unmarshal_MessageResponse_error:
  "snd (Unmarshal_MessageResponse rbody) = None
     \<longleftrightarrow> (case parse_json rbody of None \<Rightarrow> False | Some v \<Rightarrow> accepted_response v)"
  by (cases "parse_json rbody")
     (simp_all add: Unmarshal_MessageResponse_def Unmarshal_struct_def decode_struct_def
        accepted_response_def decode_members_error split: json.split)

lemma canon_keys:
  "CanonicalMIMEHeaderKey ''sb-api-key-id'' = ''Sb-Api-Key-Id''"
  "CanonicalMIMEHeaderKey ''sb-api-secret-key'' = ''Sb-Api-Secret-Key''"
  "CanonicalMIMEHeaderKey ''Content-Type'' = ''Content-Type''"
  by code_simp+

text \<open>
  The struct after the members of an object have been decoded, field by field.
\<close>

lemma last_or_append: "last_or d (xs @ ys) = last_or (last_or d xs) ys"
  by (simp add: last_or_def)

lemma decode_members_step:
  "\<exists>err'. decode_members MessageResponse_fields MessageResponse_set (kv # kvs) (m, err)
          = decode_members MessageResponse_fields MessageResponse_set kvs (member_store kv m, err')"
  by (cases kv; cases "find_field MessageResponse_fields (fst kv)"; cases "snd kv")
     (auto simp: member_store_def)

lemma member_store_fields:
  "Status (member_store kv m) = last_or (Status m) (member_values ''status'' kv)"
  "ErrorCode (member_store kv m) = last_or (ErrorCode m) (member_values ''error_code'' kv)"
  "FromNumber (member_store kv m) = last_or (FromNumber m) (member_values ''from_number'' kv)"
  "MessageHandle (member_store kv m)
     = last_or (MessageHandle m) (member_values ''message_handle'' kv)"
  by (cases "find_field MessageResponse_fields (fst kv)"; cases "snd kv";
      simp add: member_store_def member_values_def last_or_def MessageResponse_set_def)+

lemma field_values_Cons2:
  "field_values f (kv # kvs) = member_values f kv @ field_values f kvs"
  by (simp add: field_values_def member_values_def)

lemma decode_members_fields:
  "fst (decode_members MessageResponse_fields MessageResponse_set kvs (m, err)) =
     \<lparr>Status = last_or (Status m) (field_values ''status'' kvs),
      ErrorCode = last_or (ErrorCode m) (field_values ''error_code'' kvs),
      FromNumber = last_or (FromNumber m) (field_values ''from_number'' kvs),
      MessageHandle = last_or (MessageHandle m) (field_values ''message_handle'' kvs)\<rparr>"
proof (induction kvs arbitrary: m err)
  case Nil
  then show ?case by (simp add: field_values_def last_or_def)
next
  case (Cons kv kvs)
  obtain err' where
    "decode_members MessageResponse_fields MessageResponse_set (kv # kvs) (m, err)
       = decode_members MessageResponse_fields MessageResponse_set kvs (member_store kv m, err')"
    using decode_members_step by blast
  then show ?case
    by (simp only: Cons.IH member_store_fields field_values_Cons2 last_or_append)
qed

lemma Unmarshal_MessageResponse_accepted:
  assumes "parse_json rbody = Some v" and "accepted_response v"
  shows "Unmarshal_MessageResponse rbody =
     (\<lparr>Status = effective_field ''status'' v, ErrorCode = effective_field ''error_code'' v,
       FromNumber = effective_field ''from_number'' v,
       MessageHandle = effective_field ''message_handle'' v\<rparr>, None)"
proof -
  let ?zero = "\<lparr>Status = [], ErrorCode = [], FromNumber = [], MessageHandle = []\<rparr>"
  have e: "snd (Unmarshal_MessageResponse rbody) = None"
    using Unmarshal_MessageResponse_error [of rbody] assms by simp
  have m: "fst (Unmarshal_MessageResponse rbody) =
     \<lparr>Status = effective_field ''status'' v, ErrorCode = effective_field ''error_code'' v,
       FromNumber = effective_field ''from_number'' v,
       MessageHandle = effective_field ''message_handle'' v\<rparr>"
  proof (cases v)
    case JNull
    then show ?thesis
      using assms(1)
      by (simp add: Unmarshal_MessageResponse_def Unmarshal_struct_def decode_struct_def
            effective_field_def)
  next
    case (JObject kvs)
    have "fst (Unmarshal_MessageResponse rbody)
            = fst (decode_members MessageResponse_fields MessageResponse_set kvs (?zero, None))"
      using assms(1) JObject
      by (simp add: Unmarshal_MessageResponse_def Unmarshal_struct_def decode_struct_def)
    then show ?thesis
      unfolding decode_members_fields using JObject by (simp add: effective_field_def)
  qed (use assms(2) in \<open>simp_all add: accepted_response_def\<close>)
  show ?thesis using e m by (cases "Unmarshal_MessageResponse rbody") simp
qed

text \<open>
  The returned pair, read off the body: for an accepted value it follows the status and
  the sender number that the body gives; for any other body it is the unmarshal error.
\<close>

lemma SendMessage_by_body:
  assumes "Parse lib to ''US'' = Inr num"
    and "\<And>req. \<exists>resp. Client c req = Inr resp \<and> ReadAll (Body resp) = (rbody, None)"
    and "parse_json rbody = Some v" and "accepted_response v"
  shows "fst (SendMessage lib c to body) =
     (if effective_field ''status'' v = ''ERROR'' then ([], Some FailedToSend)
      else (effective_field ''from_number'' v, None))"
  using SendMessage_after_response [OF assms(1,2)]
    Unmarshal_MessageResponse_accepted [OF assms(3,4)]
  by simp

lemma SendMessage_undecoded:
  assumes "Parse lib to ''US'' = Inr num"
    and "\<And>req. \<exists>resp. Client c req = Inr resp \<and> ReadAll (Body resp) = (rbody, None)"
    and "case parse_json rbody of None \<Rightarrow> True | Some v \<Rightarrow> \<not> accepted_response v"
  shows "\<exists>err. fst (SendMessage lib c to body) = ([], Some (FailedUnmarshalResponseBody err))"
proof -
  obtain m e where u: "Unmarshal_MessageResponse rbody = (m, e)"
    by (cases "Unmarshal_MessageResponse rbody")
  have "e \<noteq> None"
    using Unmarshal_MessageResponse_error [of rbody] u assms(3) by (auto split: option.splits)
  then show ?thesis
    using SendMessage_after_response [OF assms(1,2)] u by auto
qed

subsection \<open>A number that does not parse\<close>

text \<open>
  C1. When the phone-number package returns an error for \<open>to\<close>, \<^verbatim>\<open>SendMessage\<close>
  returns the empty string and \<^verbatim>\<open>ErrParse\<close> (whatever the package's own error was),
  and the call has no event: the HTTP client is not invoked.
\<close>

theorem SendMessage_unparsable:
  assumes "Parse lib to ''US'' = Inl e"
  shows "SendMessage lib c to body = (([], Some ErrParse), c, [])"
  using assms by (simp add: SendMessage_def)

theorem SendMessage_unparsable_witness:
  "Parse stub_lib ''abc'' ''US'' = Inl ''not a number''
   \<and> SendMessage stub_lib (NewCustomClient (stub_transport ''{}'') ''key'' ''secret'') ''abc'' ''hi''
       = (([], Some ErrParse), NewCustomClient (stub_transport ''{}'') ''key'' ''secret'', [])"
proof -
  have p: "Parse stub_lib ''abc'' ''US'' = Inl ''not a number''"
    by (simp add: stub_lib_def isDigit_def in_range_def byte_def)
  from SendMessage_unparsable [OF p] p show ?thesis by simp
qed

text \<open>
  \<^verbatim>\<open>SendMessage\<close> has no test of the number of its own: it returns \<^verbatim>\<open>ErrParse\<close>
  exactly when the package's \<^verbatim>\<open>Parse\<close> returns an error.
\<close>

lemma SendMessage_ErrParse_iff:
  "snd (fst (SendMessage lib c to body)) = Some ErrParse \<longleftrightarrow> (\<exists>e. Parse lib to ''US'' = Inl e)"
  by (cases "Parse lib to ''US''")
     (simp_all add: SendMessage_def Marshal_Message_def NewRequest_endpoint Let_def
        split: sum.split prod.split option.split)

subsection \<open>The client is not changed\<close>

text \<open>
  C9. On every path of \<^verbatim>\<open>SendMessage\<close>, successful or failing, the client after the
  call is the client before it: the API key, the secret key and the HTTP client are the
  same.
\<close>

theorem SendMessage_client_unchanged:
  "fst (snd (SendMessage lib c to body)) = c"
  by (simp add: SendMessage_def Let_def split: sum.split prod.split option.split)

subsection \<open>Closing the webhook body\<close>

text \<open>
  When the read succeeds, \<^verbatim>\<open>ReadWebhook\<close> closes the stream, whether the decoding
  succeeds or fails.
\<close>

lemma ReadWebhook_closes_after_read:
  "stream_err r = None \<Longrightarrow> closed_of (snd (ReadWebhook r)) = [r]"
  by (simp add: ReadWebhook_def ReadAll_def split: prod.split option.split)


text \<open>
  C2. \<^verbatim>\<open>ReadWebhook\<close> on a stream whose read fails returns the read error without
  closing the stream: the only event is the read.
\<close>

theorem ReadWebhook_read_failure_leaves_stream_open:
  "ReadWebhook \<lparr>stream_data = [], stream_err = Some ''unexpected EOF''\<rparr>
     = ((None, Some (FailedReadRequestBody ''unexpected EOF'')),
        [EvReadAll \<lparr>stream_data = [], stream_err = Some ''unexpected EOF''\<rparr>])
   \<and> closed_of (snd (ReadWebhook \<lparr>stream_data = [], stream_err = Some ''unexpected EOF''\<rparr>)) = []"
  by (simp add: ReadWebhook_def ReadAll_def)

subsection \<open>Responses that decode\<close>

text \<open>
  C3. When the package parses \<open>555-123-4567\<close> and the HTTP client answers every request
  with the body \<open>{"status":"OK","from_number":"+15557654321","message_handle":"abc123"}\<close>,
  \<^verbatim>\<open>SendMessage("555-123-4567", "hi")\<close> returns \<open>+15557654321\<close> and no error.
\<close>

theorem SendMessage_ok_response:
  assumes "Parse lib ''555-123-4567'' ''US'' = Inr num"
    and \<open>\<And>req. \<exists>resp. Client c req = Inr resp \<and> ReadAll (Body resp) =
            (''{"status":"OK","from_number":"+15557654321","message_handle":"abc123"}'', None)\<close>
  shows "fst (SendMessage lib c ''555-123-4567'' ''hi'') = (''+15557654321'', None)"
proof -
  have \<open>Unmarshal_MessageResponse
          ''{"status":"OK","from_number":"+15557654321","message_handle":"abc123"}''
     = (\<lparr>Status = ''OK'', ErrorCode = [], FromNumber = ''+15557654321'',
         MessageHandle = ''abc123''\<rparr>, None)\<close>
    by code_simp
  with SendMessage_after_response [OF assms] show ?thesis by simp
qed

theorem SendMessage_ok_response_witness:
  \<open>Parse stub_lib ''555-123-4567'' ''US'' = Inr ''5551234567''
   \<and> fst (SendMessage stub_lib
        (NewCustomClient
           (stub_transport ''{"status":"OK","from_number":"+15557654321","message_handle":"abc123"}'')
           ''key'' ''secret'')
        ''555-123-4567'' ''hi'') = (''+15557654321'', None)\<close>
  using SendMessage_ok_response [OF stub_lib_parse stub_transport_responds] stub_lib_parse
  by simp

text \<open>
  C10, as amended. When the number parses and the HTTP client answers with a body that
  reads without error: if the body is valid JSON whose value is accepted (\<open>null\<close>, or
  an object in which every member that selects a field holds a string or \<open>null\<close>) and
  the status it gives is not \<open>ERROR\<close>, the body decodes without error, absent fields
  decode to empty strings, and \<^verbatim>\<open>SendMessage\<close> returns no error and the sender number
  that the body gives, the empty string when it gives none. In particular the bodies
  \<open>{}\<close> and \<open>null\<close> give the empty string and no error.
\<close>

theorem SendMessage_absent_status:
  assumes "Parse lib to ''US'' = Inr num"
    and "\<And>req. \<exists>resp. Client c req = Inr resp \<and> ReadAll (Body resp) = (rbody, None)"
  shows "(\<forall>v. parse_json rbody = Some v \<and> accepted_response v
               \<and> effective_field ''status'' v \<noteq> ''ERROR''
            \<longrightarrow> Unmarshal_MessageResponse rbody
                  = (\<lparr>Status = effective_field ''status'' v,
                      ErrorCode = effective_field ''error_code'' v,
                      FromNumber = effective_field ''from_number'' v,
                      MessageHandle = effective_field ''message_handle'' v\<rparr>, None)
                \<and> fst (SendMessage lib c to body) = (effective_field ''from_number'' v, None))
         \<and> (rbody = ''{}'' \<or> rbody = ''null''
            \<longrightarrow> Unmarshal_MessageResponse rbody
                  = (\<lparr>Status = [], ErrorCode = [], FromNumber = [], MessageHandle = []\<rparr>, None)
                \<and> fst (SendMessage lib c to body) = ([], None))"
proof -
  have general: "Unmarshal_MessageResponse rbody
                  = (\<lparr>Status = effective_field ''status'' v,
                      ErrorCode = effective_field ''error_code'' v,
                      FromNumber = effective_field ''from_number'' v,
                      MessageHandle = effective_field ''message_handle'' v\<rparr>, None)
                \<and> fst (SendMessage lib c to body) = (effective_field ''from_number'' v, None)"
    if "parse_json rbody = Some v" "accepted_response v" "effective_field ''status'' v \<noteq> ''ERROR''"
    for v
    using SendMessage_by_body [OF assms that(1,2)] Unmarshal_MessageResponse_accepted [OF that(1,2)]
      that(3)
    by simp
  have a: "Unmarshal_MessageResponse ''{}''
           = (\<lparr>Status = [], ErrorCode = [], FromNumber = [], MessageHandle = []\<rparr>, None)"
    by code_simp
  have b: "Unmarshal_MessageResponse ''null''
           = (\<lparr>Status = [], ErrorCode = [], FromNumber = [], MessageHandle = []\<rparr>, None)"
    by code_simp
  have special: "Unmarshal_MessageResponse rbody
                  = (\<lparr>Status = [], ErrorCode = [], FromNumber = [], MessageHandle = []\<rparr>, None)
                \<and> fst (SendMessage lib c to body) = ([], None)"
    if "rbody = ''{}'' \<or> rbody = ''null''"
    using SendMessage_after_response [OF assms] that a b by auto
  show ?thesis using general special by blast
qed

theorem SendMessage_absent_status_witness:
  \<open>fst (SendMessage stub_lib (NewCustomClient (stub_transport ''{}'') ''key'' ''secret'')
          ''555-123-4567'' ''hi'') = ([], None)
   \<and> fst (SendMessage stub_lib (NewCustomClient (stub_transport ''null'') ''key'' ''secret'')
          ''555-123-4567'' ''hi'') = ([], None)
   \<and> fst (SendMessage stub_lib
          (NewCustomClient (stub_transport ''{"Status":"OK","from_number":"+1","x":[1]}'') ''key'' ''secret'')
          ''555-123-4567'' ''hi'') = (''+1'', None)\<close>
proof -
  let ?v = "JObject [(''Status'', JString ''OK''), (''from_number'', JString ''+1''),
                     (''x'', JArray [JNumber ''1''])]"
  have p: \<open>parse_json ''{"Status":"OK","from_number":"+1","x":[1]}'' = Some ?v\<close> by code_simp
  have a: "accepted_response ?v" by code_simp
  have s: "effective_field ''status'' ?v = ''OK''" by code_simp
  have f: "effective_field ''from_number'' ?v = ''+1''" by code_simp
  from SendMessage_absent_status [OF stub_lib_parse stub_transport_responds, of "''{}''"]
    SendMessage_absent_status [OF stub_lib_parse stub_transport_responds, of "''null''"]
    SendMessage_absent_status [OF stub_lib_parse stub_transport_responds,
      of \<open>''{"Status":"OK","from_number":"+1","x":[1]}''\<close>] p a s f
  show ?thesis by simp
qed

text \<open>
  C10 as stated fails: the body \<open>[]\<close> is valid JSON, has not the shape of a response and
  has no status, yet \<^verbatim>\<open>SendMessage\<close> returns the unmarshal error.
\<close>

theorem SendMessage_absent_status_counterexample:
  "parse_json ''[]'' = Some (JArray [])
   \<and> \<not> spec_response_shape (JArray [])
   \<and> fst (SendMessage stub_lib (NewCustomClient (stub_transport ''[]'') ''key'' ''secret'')
          ''555-123-4567'' ''hi'')
       = ([], Some (FailedUnmarshalResponseBody (UnmarshalTypeError ''array'' [])))"
proof -
  have p: "parse_json ''[]'' = Some (JArray [])" by code_simp
  have u: "Unmarshal_MessageResponse ''[]''
           = (\<lparr>Status = [], ErrorCode = [], FromNumber = [], MessageHandle = []\<rparr>,
              Some (UnmarshalTypeError ''array'' []))"
    by code_simp
  from SendMessage_after_response [OF stub_lib_parse stub_transport_responds, of "''[]''"] u p
  show ?thesis by (simp add: spec_response_shape_def)
qed

text \<open>
  C4, as amended. When the number parses and the HTTP client answers with a body that
  reads without error, \<^verbatim>\<open>SendMessage\<close> returns the empty string and the send-failed
  error exactly when the body is valid JSON, its value is accepted (every member that
  selects a field holds a string or \<open>null\<close>), and the status it gives (the last string
  among the members that select the status field) is \<open>ERROR\<close>.
\<close>

theorem SendMessage_error_status:
  assumes "Parse lib to ''US'' = Inr num"
    and "\<And>req. \<exists>resp. Client c req = Inr resp \<and> ReadAll (Body resp) = (rbody, None)"
  shows "fst (SendMessage lib c to body) = ([], Some FailedToSend)
           \<longleftrightarrow> (\<exists>v. parse_json rbody = Some v \<and> accepted_response v
                     \<and> effective_field ''status'' v = ''ERROR'')"
proof (cases "case parse_json rbody of None \<Rightarrow> True | Some v \<Rightarrow> \<not> accepted_response v")
  case True
  then obtain err where
    "fst (SendMessage lib c to body) = ([], Some (FailedUnmarshalResponseBody err))"
    using SendMessage_undecoded [OF assms] by blast
  then show ?thesis using True by (auto split: option.splits)
next
  case False
  then obtain v where v: "parse_json rbody = Some v" "accepted_response v"
    by (auto split: option.splits)
  show ?thesis
    using SendMessage_by_body [OF assms v] v by auto
qed

theorem SendMessage_error_status_witness:
  \<open>parse_json ''{"status":"ERROR","error_code":"E1"}''
     = Some (JObject [(''status'', JString ''ERROR''), (''error_code'', JString ''E1'')])
   \<and> accepted_response (JObject [(''status'', JString ''ERROR''), (''error_code'', JString ''E1'')])
   \<and> effective_field ''status'' (JObject [(''status'', JString ''ERROR''), (''error_code'', JString ''E1'')])
       = ''ERROR''
   \<and> fst (SendMessage stub_lib
        (NewCustomClient (stub_transport ''{"status":"ERROR","error_code":"E1"}'') ''key'' ''secret'')
        ''555-123-4567'' ''hi'') = ([], Some FailedToSend)\<close>
proof -
  let ?v = "JObject [(''status'', JString ''ERROR''), (''error_code'', JString ''E1'')]"
  have p: \<open>parse_json ''{"status":"ERROR","error_code":"E1"}'' = Some ?v\<close>
    by code_simp
  have a: "accepted_response ?v" by code_simp
  have s: "effective_field ''status'' ?v = ''ERROR''" by code_simp
  from SendMessage_error_status [OF stub_lib_parse stub_transport_responds] p a s
  show ?thesis by blast
qed

text \<open>
  C4 as stated fails: the body \<open>{"status":"ERROR","error_code":1}\<close> is valid JSON
  whose status member is \<open>ERROR\<close>, but its \<open>error_code\<close> is a number, so the decoding
  fails and \<^verbatim>\<open>SendMessage\<close> returns the unmarshal error, not the send-failed error.
\<close>

theorem SendMessage_error_status_counterexample:
  \<open>parse_json ''{"status":"ERROR","error_code":1}''
     = Some (JObject [(''status'', JString ''ERROR''), (''error_code'', JNumber ''1'')])
   \<and> fst (SendMessage stub_lib
        (NewCustomClient (stub_transport ''{"status":"ERROR","error_code":1}'') ''key'' ''secret'')
        ''555-123-4567'' ''hi'')
      = ([], Some (FailedUnmarshalResponseBody (UnmarshalTypeError ''number'' ''error_code'')))
   \<and> fst (SendMessage stub_lib
        (NewCustomClient (stub_transport ''{"status":"ERROR","error_code":1}'') ''key'' ''secret'')
        ''555-123-4567'' ''hi'') \<noteq> ([], Some FailedToSend)\<close>
proof -
  have p: \<open>parse_json ''{"status":"ERROR","error_code":1}''
     = Some (JObject [(''status'', JString ''ERROR''), (''error_code'', JNumber ''1'')])\<close>
    by code_simp
  have u: \<open>Unmarshal_MessageResponse ''{"status":"ERROR","error_code":1}''
     = (\<lparr>Status = ''ERROR'', ErrorCode = [], FromNumber = [], MessageHandle = []\<rparr>,
        Some (UnmarshalTypeError ''number'' ''error_code''))\<close>
    by code_simp
  from SendMessage_after_response [OF stub_lib_parse stub_transport_responds] u p
  show ?thesis by simp
qed

subsection \<open>Responses that do not decode\<close>

text \<open>
  C6, as amended. When the number parses and the HTTP client answers with a body that
  reads without error, \<^verbatim>\<open>SendMessage\<close> returns the unmarshal error exactly when the
  body is not valid JSON or its value is not accepted: it is neither \<open>null\<close> nor an
  object, or it is an object with a member whose key selects a field and whose value is
  neither a string nor \<open>null\<close>. The body \<open>not json\<close> gives the unmarshal error, with a
  syntax error inside, and the empty string.
\<close>

theorem SendMessage_response_parse_error:
  assumes "Parse lib to ''US'' = Inr num"
    and "\<And>req. \<exists>resp. Client c req = Inr resp \<and> ReadAll (Body resp) = (rbody, None)"
  shows "((\<exists>err. fst (SendMessage lib c to body) = ([], Some (FailedUnmarshalResponseBody err)))
           \<longleftrightarrow> (case parse_json rbody of None \<Rightarrow> True | Some v \<Rightarrow> \<not> accepted_response v))
         \<and> (rbody = ''not json'' \<longrightarrow>
              fst (SendMessage lib c to body) = ([], Some (FailedUnmarshalResponseBody SyntaxError)))"
proof -
  have nj: "Unmarshal_MessageResponse ''not json''
      = (\<lparr>Status = [], ErrorCode = [], FromNumber = [], MessageHandle = []\<rparr>, Some SyntaxError)"
    by code_simp
  obtain mresp e where u: "Unmarshal_MessageResponse rbody = (mresp, e)"
    by (cases "Unmarshal_MessageResponse rbody")
  have e: "e = None \<longleftrightarrow> (case parse_json rbody of None \<Rightarrow> False | Some v \<Rightarrow> accepted_response v)"
    using Unmarshal_MessageResponse_error [of rbody] u by simp
  have r: "fst (SendMessage lib c to body) =
     (case e of Some err \<Rightarrow> ([], Some (FailedUnmarshalResponseBody err))
      | None \<Rightarrow> if Status mresp = ''ERROR'' then ([], Some FailedToSend) else (FromNumber mresp, None))"
    using SendMessage_after_response [OF assms] u by simp
  have "(\<exists>err. fst (SendMessage lib c to body) = ([], Some (FailedUnmarshalResponseBody err)))
           \<longleftrightarrow> e \<noteq> None"
    using r by (cases e) auto
  moreover have "rbody = ''not json'' \<longrightarrow>
      fst (SendMessage lib c to body) = ([], Some (FailedUnmarshalResponseBody SyntaxError))"
    using r u nj by auto
  ultimately show ?thesis using e by (auto split: option.splits)
qed

theorem SendMessage_response_parse_error_witness:
  "parse_json ''not json'' = None
   \<and> fst (SendMessage stub_lib (NewCustomClient (stub_transport ''not json'') ''key'' ''secret'')
          ''555-123-4567'' ''hi'') = ([], Some (FailedUnmarshalResponseBody SyntaxError))"
proof -
  have p: "parse_json ''not json'' = None" by code_simp
  from SendMessage_response_parse_error
         [OF stub_lib_parse stub_transport_responds, of "''not json''"] p
  show ?thesis by simp
qed

text \<open>
  C6 as stated fails: the body \<open>null\<close> is valid JSON and has not the shape of a
  response (it is no object), yet \<^verbatim>\<open>SendMessage\<close> returns no error.
\<close>

theorem SendMessage_response_parse_error_counterexample:
  "parse_json ''null'' = Some JNull
   \<and> \<not> spec_response_shape JNull
   \<and> fst (SendMessage stub_lib (NewCustomClient (stub_transport ''null'') ''key'' ''secret'')
          ''555-123-4567'' ''hi'') = ([], None)"
proof -
  have p: "parse_json ''null'' = Some JNull" by code_simp
  have u: "Unmarshal_MessageResponse ''null''
           = (\<lparr>Status = [], ErrorCode = [], FromNumber = [], MessageHandle = []\<rparr>, None)"
    by code_simp
  from SendMessage_after_response [OF stub_lib_parse stub_transport_responds, of "''null''"] u p
  show ?thesis by (simp add: spec_response_shape_def)
qed

subsection \<open>UTF-8: decoding and encoding a rune\<close>

lemma char_of_byte [simp]: "char_of (byte c) = c"
  by (simp add: byte_def)

lemma byte_lt_256: "byte c < 256"
  by (simp add: byte_def)

lemma byte_eq_iff: "byte c = byte d \<longleftrightarrow> c = d"
  by (simp add: byte_def)

text \<open>The valid multi-byte sequences, by their length.\<close>

lemma DecodeRune_valid_cases:
  assumes "DecodeRune (c # cs) = (r, w)" and "0x80 \<le> byte c" and "\<not> (r = RuneError \<and> w = 1)"
  obtains
    (two) c1 rest where "cs = c1 # rest" "0xC2 \<le> byte c" "byte c < 0xE0" "in_range 0x80 0xBF c1"
      "r = (byte c - 0xC0) * 64 + (byte c1 - 0x80)" "w = 2"
  | (three) c1 c2 rest where "cs = c1 # c2 # rest" "0xE0 \<le> byte c" "byte c < 0xF0"
      "in_range (if byte c = 0xE0 then 0xA0 else 0x80) (if byte c = 0xED then 0x9F else 0xBF) c1"
      "in_range 0x80 0xBF c2"
      "r = (byte c - 0xE0) * 4096 + (byte c1 - 0x80) * 64 + (byte c2 - 0x80)" "w = 3"
  | (four) c1 c2 c3 rest where "cs = c1 # c2 # c3 # rest" "0xF0 \<le> byte c" "byte c < 0xF5"
      "in_range (if byte c = 0xF0 then 0x90 else 0x80) (if byte c = 0xF4 then 0x8F else 0xBF) c1"
      "in_range 0x80 0xBF c2" "in_range 0x80 0xBF c3"
      "r = (byte c - 0xF0) * 262144 + (byte c1 - 0x80) * 4096 + (byte c2 - 0x80) * 64 + (byte c3 - 0x80)"
      "w = 4"
  using assms
  by (auto simp: RuneError_def split: if_splits list.splits)


lemma digits2:
  fixes a b :: nat
  assumes "b < 64"
  shows "(a * 64 + b) div 64 = a" "(a * 64 + b) mod 64 = b"
  using assms by simp_all

lemma digits3:
  fixes a b c :: nat
  assumes "b < 64" "c < 64"
  shows "(a * 4096 + b * 64 + c) div 4096 = a"
    "((a * 4096 + b * 64 + c) div 64) mod 64 = b"
    "(a * 4096 + b * 64 + c) mod 64 = c"
proof -
  let ?r = "a * 4096 + b * 64 + c"
  have e: "?r = (a * 64 + b) * 64 + c" by simp
  have "b * 64 + c < 4096" using assms by linarith
  then have "(a * 4096 + (b * 64 + c)) div 4096 = a" by simp
  then show "?r div 4096 = a" by (simp only: add.assoc)
  have "((a * 64 + b) * 64 + c) div 64 = a * 64 + b" using assms(2) by (rule digits2(1))
  then have "?r div 64 = a * 64 + b" by (simp only: e)
  then show "(?r div 64) mod 64 = b" using digits2(2) [OF assms(1), of a] by (simp only:)
  have "((a * 64 + b) * 64 + c) mod 64 = c" using assms(2) by (rule digits2(2))
  then show "?r mod 64 = c" by (simp only: e)
qed

lemma digits4:
  fixes a b c d :: nat
  assumes "b < 64" "c < 64" "d < 64"
  shows "(a * 262144 + b * 4096 + c * 64 + d) div 262144 = a"
    "((a * 262144 + b * 4096 + c * 64 + d) div 4096) mod 64 = b"
    "((a * 262144 + b * 4096 + c * 64 + d) div 64) mod 64 = c"
    "(a * 262144 + b * 4096 + c * 64 + d) mod 64 = d"
proof -
  let ?r = "a * 262144 + b * 4096 + c * 64 + d"
  have e1: "?r = (a * 4096 + b * 64 + c) * 64 + d" by simp
  have e2: "?r = (a * 64 + b) * 4096 + (c * 64 + d)" by simp
  have e3: "?r = a * 262144 + (b * 4096 + c * 64 + d)" by simp
  have l2: "c * 64 + d < 4096" using assms by linarith
  have l3: "b * 4096 + c * 64 + d < 262144" using assms by linarith
  have "(a * 262144 + (b * 4096 + c * 64 + d)) div 262144 = a" using l3 by simp
  then show "?r div 262144 = a" by (simp only: e3)
  have "((a * 64 + b) * 4096 + (c * 64 + d)) div 4096 = a * 64 + b" using l2 by simp
  then have "?r div 4096 = a * 64 + b" by (simp only: e2)
  then show "(?r div 4096) mod 64 = b" using digits2(2) [OF assms(1), of a] by (simp only:)
  have "((a * 4096 + b * 64 + c) * 64 + d) div 64 = a * 4096 + b * 64 + c"
    using assms(3) by (rule digits2(1))
  then have "?r div 64 = a * 4096 + b * 64 + c" by (simp only: e1)
  then show "(?r div 64) mod 64 = c" using digits3(3) [OF assms(1) assms(2), of a] by (simp only:)
  have "((a * 4096 + b * 64 + c) * 64 + d) mod 64 = d" using assms(3) by (rule digits2(2))
  then show "?r mod 64 = d" by (simp only: e1)
qed


lemma EncodeRune2:
  "128 \<le> r \<Longrightarrow> r \<le> 2047
     \<Longrightarrow> EncodeRune r = [char_of (192 + r div 64), char_of (128 + r mod 64)]"
  by (simp add: EncodeRune_def)

lemma EncodeRune3:
  "2048 \<le> r \<Longrightarrow> r \<le> 65535 \<Longrightarrow> \<not> (55296 \<le> r \<and> r \<le> 57343)
     \<Longrightarrow> EncodeRune r = [char_of (224 + r div 4096), char_of (128 + (r div 64) mod 64),
                           char_of (128 + r mod 64)]"
  by (auto simp add: EncodeRune_def)

lemma EncodeRune4:
  "65536 \<le> r \<Longrightarrow> r \<le> 1114111
     \<Longrightarrow> EncodeRune r = [char_of (240 + r div 262144), char_of (128 + (r div 4096) mod 64),
                           char_of (128 + (r div 64) mod 64), char_of (128 + r mod 64)]"
  by (simp add: EncodeRune_def)

lemma encode2:
  fixes b0 b1 :: nat
  assumes "194 \<le> b0" "b0 < 224" "128 \<le> b1" "b1 \<le> 191"
  shows "EncodeRune ((b0 - 192) * 64 + (b1 - 128)) = [char_of b0, char_of b1]"
proof -
  define a where "a = b0 - 192"
  define b where "b = b1 - 128"
  have ab: "2 \<le> a" "a < 32" "b < 64"
    using assms by (simp_all add: a_def b_def)
  have e: "192 + a = b0" "128 + b = b1"
    using assms by (simp_all add: a_def b_def)
  let ?r = "a * 64 + b"
  have d: "?r div 64 = a" "?r mod 64 = b" using ab(3) by (rule digits2)+
  have lo: "128 \<le> ?r" using ab by linarith
  have hi: "?r \<le> 2047" using ab by linarith
  have "EncodeRune ?r = [char_of b0, char_of b1]"
    using EncodeRune2 [OF lo hi] by (simp only: d e)
  then show ?thesis by (simp only: a_def b_def)
qed

lemma encode3:
  fixes b0 b1 b2 :: nat
  assumes "224 \<le> b0" "b0 < 240"
    "(if b0 = 224 then 160 else 128) \<le> b1" "b1 \<le> (if b0 = 237 then 159 else 191)"
    "128 \<le> b2" "b2 \<le> 191"
  shows "EncodeRune ((b0 - 224) * 4096 + (b1 - 128) * 64 + (b2 - 128))
           = [char_of b0, char_of b1, char_of b2]"
proof -
  define a where "a = b0 - 224"
  define b where "b = b1 - 128"
  define c where "c = b2 - 128"
  have b1: "128 \<le> b1" "b1 \<le> 191" using assms(3,4) by (auto split: if_splits)
  have ab: "a < 16" "b < 64" "c < 64"
    using assms(1,2,5,6) b1 by (simp_all add: a_def b_def c_def)
  have e: "224 + a = b0" "128 + b = b1" "128 + c = b2"
    using assms(1,2,5,6) b1 by (simp_all add: a_def b_def c_def)
  have a0: "a = 0 \<Longrightarrow> 32 \<le> b" using assms(1,3) b1 by (simp add: a_def b_def split: if_splits)
  have a13: "a = 13 \<Longrightarrow> b \<le> 31" using assms(1,4) b1 by (simp add: a_def b_def split: if_splits)
  let ?r = "a * 4096 + b * 64 + c"
  have d: "?r div 4096 = a" "(?r div 64) mod 64 = b" "?r mod 64 = c"
    using ab(2,3) by (rule digits3)+
  have lo: "2048 \<le> ?r" using a0 ab by (cases "a = 0") linarith+
  have hi: "?r \<le> 65535" using ab by linarith
  have ns: "\<not> (55296 \<le> ?r \<and> ?r \<le> 57343)"
  proof (cases "a = 13")
    case True
    then show ?thesis using a13 ab by linarith
  next
    case False
    then show ?thesis using ab by linarith
  qed
  have "EncodeRune ?r = [char_of b0, char_of b1, char_of b2]"
    using EncodeRune3 [OF lo hi ns] by (simp only: d e)
  then show ?thesis by (simp only: a_def b_def c_def)
qed

lemma encode4:
  fixes b0 b1 b2 b3 :: nat
  assumes "240 \<le> b0" "b0 < 245"
    "(if b0 = 240 then 144 else 128) \<le> b1" "b1 \<le> (if b0 = 244 then 143 else 191)"
    "128 \<le> b2" "b2 \<le> 191" "128 \<le> b3" "b3 \<le> 191"
  shows "EncodeRune ((b0 - 240) * 262144 + (b1 - 128) * 4096 + (b2 - 128) * 64 + (b3 - 128))
           = [char_of b0, char_of b1, char_of b2, char_of b3]"
proof -
  define a where "a = b0 - 240"
  define b where "b = b1 - 128"
  define c where "c = b2 - 128"
  define d where "d = b3 - 128"
  have b1: "128 \<le> b1" "b1 \<le> 191" using assms(3,4) by (auto split: if_splits)
  have ab: "a < 5" "b < 64" "c < 64" "d < 64"
    using assms(1,2,5,6,7,8) b1 by (simp_all add: a_def b_def c_def d_def)
  have e: "240 + a = b0" "128 + b = b1" "128 + c = b2" "128 + d = b3"
    using assms(1,2,5,6,7,8) b1 by (simp_all add: a_def b_def c_def d_def)
  have a0: "a = 0 \<Longrightarrow> 16 \<le> b" using assms(1,3) b1 by (simp add: a_def b_def split: if_splits)
  have a4: "a = 4 \<Longrightarrow> b \<le> 15" using assms(1,4) b1 by (simp add: a_def b_def split: if_splits)
  let ?r = "a * 262144 + b * 4096 + c * 64 + d"
  have dg: "?r div 262144 = a" "(?r div 4096) mod 64 = b" "(?r div 64) mod 64 = c" "?r mod 64 = d"
    using ab(2,3,4) by (rule digits4)+
  have lo: "65536 \<le> ?r" using a0 ab by (cases "a = 0") linarith+
  have hi: "?r \<le> 1114111" using a4 ab by (cases "a = 4") linarith+
  have "EncodeRune ?r = [char_of b0, char_of b1, char_of b2, char_of b3]"
    using EncodeRune4 [OF lo hi] by (simp only: dg e)
  then show ?thesis by (simp only: a_def b_def c_def d_def)
qed


lemma in_range_cont:
  "in_range (if b = x then lo else 0x80) (if b = y then hi else 0xBF) c
     \<Longrightarrow> 0x80 \<le> lo \<Longrightarrow> hi \<le> 0xBF \<Longrightarrow> in_range 0x80 0xBF c"
  by (auto simp: in_range_def split: if_splits)

lemma DecodeRune_valid:
  assumes "DecodeRune (c # cs) = (r, w)" and "0x80 \<le> byte c" and "\<not> (r = RuneError \<and> w = 1)"
  shows "2 \<le> w" and "w - 1 \<le> length cs"
    and "list_all (in_range 0x80 0xBF) (take (w - 1) cs)"
    and "EncodeRune r = c # take (w - 1) cs"
    and "DecodeRune (c # take (w - 1) cs @ tl0) = (r, w)"
proof -
  have "2 \<le> w \<and> w - 1 \<le> length cs \<and> list_all (in_range 0x80 0xBF) (take (w - 1) cs)
        \<and> EncodeRune r = c # take (w - 1) cs
        \<and> DecodeRune (c # take (w - 1) cs @ tl0) = (r, w)"
    using assms
  proof (cases rule: DecodeRune_valid_cases)
    case (two c1 rest)
    have "EncodeRune r = [c, c1]"
      using encode2 [of "byte c" "byte c1"] two by (simp add: in_range_def)
    then show ?thesis using two by simp
  next
    case (three c1 c2 rest)
    have "EncodeRune r = [c, c1, c2]"
      using encode3 [of "byte c" "byte c1" "byte c2"] three by (simp add: in_range_def)
    moreover have "in_range 0x80 0xBF c1"
      using three(4) by (rule in_range_cont) simp_all
    ultimately show ?thesis using three by simp
  next
    case (four c1 c2 c3 rest)
    have "EncodeRune r = [c, c1, c2, c3]"
      using encode4 [of "byte c" "byte c1" "byte c2" "byte c3"] four by (simp add: in_range_def)
    moreover have "in_range 0x80 0xBF c1"
      using four(4) by (rule in_range_cont) simp_all
    ultimately show ?thesis using four by simp
  qed
  then show "2 \<le> w" and "w - 1 \<le> length cs"
    and "list_all (in_range 0x80 0xBF) (take (w - 1) cs)"
    and "EncodeRune r = c # take (w - 1) cs"
    and "DecodeRune (c # take (w - 1) cs @ tl0) = (r, w)"
    by simp_all
qed

subsection \<open>What Marshal writes for a string is a string literal\<close>

lemma hex_digit:
  assumes "n < 16"
  shows "isHex (hex n)" and "hexval (hex n) = Some n"
proof -
  have "list_all (\<lambda>n. isHex (hex n) \<and> hexval (hex n) = Some n) [0..<16]"
    by code_simp
  then have "\<forall>n\<in>set [0..<16]. isHex (hex n) \<and> hexval (hex n) = Some n"
    by (simp only: list_all_iff)
  moreover have "n \<in> set [0..<16]" using assms by simp
  ultimately have "isHex (hex n) \<and> hexval (hex n) = Some n" by blast
  then show "isHex (hex n)" and "hexval (hex n) = Some n" by simp_all
qed

lemma high_byte_plain:
  assumes "0x80 \<le> byte x"
  shows "x \<noteq> dquote" and "x \<noteq> bslash" and "\<not> byte x < 0x20" and "\<not> byte x < 0x80"
  using assms by (auto simp: dquote_def bslash_def byte_def)

lemma map_option_add_Suc:
  "map_option Suc (map_option (\<lambda>n. n + k) z) = map_option (\<lambda>n. n + Suc k) z"
  by (cases z) simp_all

lemma scan_string_high:
  "list_all (\<lambda>x. 0x80 \<le> byte x) xs
     \<Longrightarrow> scan_string (xs @ ys) = map_option (\<lambda>n. n + length xs) (scan_string ys)"
proof (induction xs)
  case Nil
  then show ?case by (cases "scan_string ys") simp_all
next
  case (Cons x xs)
  then have "0x80 \<le> byte x" by simp
  then show ?case
    using Cons by (simp add: high_byte_plain map_option_add_Suc)
qed

lemma byte_eq_char: "byte c = n \<Longrightarrow> c = char_of n"
  by (auto simp: byte_def)

lemma escape_cases:
  assumes "byte c < 0x80"
  obtains "c = bslash" | "c = dquote" | "c = CHR 0x08" | "c = CHR 0x0C" | "c = CHR 0x0A"
    | "c = CHR 0x0D" | "c = CHR 0x09"
    | "c \<noteq> bslash" "c \<noteq> dquote" "byte c \<noteq> 0x08" "byte c \<noteq> 0x0C" "byte c \<noteq> 0x0A"
      "byte c \<noteq> 0x0D" "byte c \<noteq> 0x09" "byte c < 0x80"
proof -
  have "byte c = 8 \<Longrightarrow> c = CHR 0x08" "byte c = 12 \<Longrightarrow> c = CHR 0x0C"
    "byte c = 10 \<Longrightarrow> c = CHR 0x0A" "byte c = 13 \<Longrightarrow> c = CHR 0x0D" "byte c = 9 \<Longrightarrow> c = CHR 0x09"
    using byte_eq_iff [of c "CHR 0x08"] byte_eq_iff [of c "CHR 0x0C"] byte_eq_iff [of c "CHR 0x0A"]
      byte_eq_iff [of c "CHR 0x0D"] byte_eq_iff [of c "CHR 0x09"]
    by (simp_all add: byte_def)
  then show ?thesis using that assms by blast
qed

lemma scan_string_escape:
  assumes "byte c < 0x80"
  shows "scan_string (escape_byte c @ ys)
           = map_option (\<lambda>n. n + length (escape_byte c)) (scan_string ys)"
  using assms
proof (cases rule: escape_cases)
  case 8
  have h: "isHex (hex (byte c div 16))" "isHex (hex (byte c mod 16))"
    using 8(8) by (auto intro!: hex_digit(1))
  have z: "isHex (CHR ''0'')" by (simp add: isHex_def in_range_def byte_def)
  show ?thesis
    using 8 h z
    by (cases "scan_string ys") (simp_all add: escape_byte_def bslash_def dquote_def)
qed (cases "scan_string ys"; simp add: escape_byte_def bslash_def dquote_def byte_def)+


lemma sequence_high:
  assumes "DecodeRune (c # cs) = (r, w)" and "0x80 \<le> byte c" and "\<not> (r = RuneError \<and> w = 1)"
  shows "list_all (\<lambda>x. 0x80 \<le> byte x) (c # take (w - 1) cs)"
proof -
  have "list_all (in_range 0x80 0xBF) (take (w - 1) cs)"
    using assms by (rule DecodeRune_valid(3))
  then have "list_all (\<lambda>x. 0x80 \<le> byte x) (take (w - 1) cs)"
    by (simp add: list_all_iff in_range_def)
  then show ?thesis using assms(2) by simp
qed

lemma appendString_body_ascii:
  "byte c < 0x80 \<Longrightarrow>
     appendString_body (c # cs) = (if htmlSafe c then [c] else escape_byte c) @ appendString_body cs"
  by simp

lemma appendString_body_invalid:
  "\<not> byte c < 0x80 \<Longrightarrow> DecodeRune (c # cs) = (r, w) \<Longrightarrow> r = RuneError \<and> w = 1 \<Longrightarrow>
     appendString_body (c # cs)
       = [bslash, CHR ''u'', CHR ''f'', CHR ''f'', CHR ''f'', CHR ''d''] @ appendString_body cs"
  by (simp del: DecodeRune.simps)

lemma appendString_body_separator:
  "\<not> byte c < 0x80 \<Longrightarrow> DecodeRune (c # cs) = (r, w) \<Longrightarrow> \<not> (r = RuneError \<and> w = 1) \<Longrightarrow>
     r = 0x2028 \<or> r = 0x2029 \<Longrightarrow>
     appendString_body (c # cs)
       = [bslash, CHR ''u'', CHR ''2'', CHR ''0'', CHR ''2'', hex (r mod 16)]
         @ appendString_body (drop (w - 1) cs)"
  by (simp del: DecodeRune.simps)

lemma appendString_body_copy:
  "\<not> byte c < 0x80 \<Longrightarrow> DecodeRune (c # cs) = (r, w) \<Longrightarrow> \<not> (r = RuneError \<and> w = 1) \<Longrightarrow>
     \<not> (r = 0x2028 \<or> r = 0x2029) \<Longrightarrow>
     appendString_body (c # cs) = (c # take (w - 1) cs) @ appendString_body (drop (w - 1) cs)"
  by (simp del: DecodeRune.simps)

lemma scan_string_appendString_body:
  "scan_string (appendString_body s @ dquote # rest) = Some (length (appendString_body s))"
proof (induction s rule: length_induct)
  case (1 s)
  show ?case
  proof (cases s)
    case Nil
    then show ?thesis by simp
  next
    case (Cons c cs)
    have IH: "length t \<le> length cs \<Longrightarrow>
        scan_string (appendString_body t @ dquote # rest) = Some (length (appendString_body t))" for t
      using 1 Cons by simp
    show ?thesis
    proof (cases "byte c < 0x80")
      case True
      show ?thesis
      proof (cases "htmlSafe c")
        case True
        then show ?thesis
          using \<open>byte c < 0x80\<close> Cons IH [of cs] by (simp add: htmlSafe_def)
      next
        case False
        then show ?thesis
          using Cons IH [of cs] scan_string_escape [OF True]
          by (simp add: appendString_body_ascii [OF True] del: appendString_body.simps)
      qed
    next
      case False
      then have hi: "0x80 \<le> byte c" by simp
      obtain r w where d: "DecodeRune (c # cs) = (r, w)" by (cases "DecodeRune (c # cs)")
      have hx: "isHex (CHR ''f'')" "isHex (CHR ''d'')" "isHex (CHR ''2'')" "isHex (CHR ''0'')"
        by (simp_all add: isHex_def in_range_def byte_def)
      have hr: "isHex (hex (r mod 16))" by (rule hex_digit(1)) simp
      have ne: "bslash \<noteq> dquote" "CHR ''u'' \<noteq> dquote" "CHR ''u'' \<noteq> bslash"
        by (simp_all add: bslash_def dquote_def)
      show ?thesis
      proof (cases "r = RuneError \<and> w = 1")
        case True
        show ?thesis
          unfolding Cons appendString_body_invalid [OF False d True]
          using IH [of cs] hx ne by simp
      next
        case valid: False
        have sq: "list_all (\<lambda>x. 0x80 \<le> byte x) (c # take (w - 1) cs)"
          using d hi valid by (rule sequence_high)
        have len: "length (drop (w - 1) cs) \<le> length cs" by simp
        show ?thesis
        proof (cases "r = 0x2028 \<or> r = 0x2029")
          case True
          show ?thesis
            unfolding Cons appendString_body_separator [OF False d valid True]
            using IH [OF len] hx hr ne by simp
        next
          case nosep: False
          show ?thesis
            unfolding Cons appendString_body_copy [OF False d valid nosep]
            using IH [OF len]
              scan_string_high [OF sq, of "appendString_body (drop (w - 1) cs) @ dquote # rest"]
            by (simp del: scan_string.simps)
        qed
      qed
    qed
  qed
qed

subsection \<open>Unquoting what Marshal wrote\<close>

lemma unquote_plain:
  "c \<noteq> bslash \<Longrightarrow> c \<noteq> dquote \<Longrightarrow> \<not> byte c < 0x20 \<Longrightarrow> byte c < 0x80 \<Longrightarrow>
     unquote_body (c # cs) = map_option ((#) c) (unquote_body cs)"
  by simp

lemma unquote_high:
  "\<not> byte c < 0x80 \<Longrightarrow> DecodeRune (c # cs) = (rr, w) \<Longrightarrow>
     unquote_body (c # cs) = map_option ((@) (EncodeRune rr)) (unquote_body (drop (w - 1) cs))"
  by (simp del: DecodeRune.simps add: high_byte_plain)

lemma unquote_u4:
  "getu4 (bslash # CHR ''u'' # cs') = Some rr \<Longrightarrow> \<not> IsSurrogate rr \<Longrightarrow>
     unquote_body (bslash # CHR ''u'' # cs')
       = map_option ((@) (EncodeRune rr)) (unquote_body (drop 4 cs'))"
  by (simp del: getu4.simps add: bslash_def dquote_def)

lemma getu4_digits:
  assumes "hexval h1 = Some a" "hexval h2 = Some b" "hexval h3 = Some c" "hexval h4 = Some d"
  shows "getu4 (bslash # CHR ''u'' # h1 # h2 # h3 # h4 # ys) = Some (((a * 16 + b) * 16 + c) * 16 + d)"
  using assms by simp

lemma hexval_consts:
  "hexval (CHR ''0'') = Some 0" "hexval (CHR ''2'') = Some 2"
  by (simp_all add: hexval_def in_range_def byte_def)

lemma unquote_escape:
  assumes "byte c < 0x80"
  shows "unquote_body (escape_byte c @ ys) = map_option ((#) c) (unquote_body ys)"
  using assms
proof (cases rule: escape_cases)
  case 8
  let ?b = "byte c"
  have g: "getu4 (bslash # CHR ''u'' # CHR ''0'' # CHR ''0'' # hex (?b div 16) # hex (?b mod 16) # ys)
            = Some (((0 * 16 + 0) * 16 + ?b div 16) * 16 + ?b mod 16)"
    using 8(8) by (intro getu4_digits hexval_consts hex_digit(2)) simp_all
  have v: "((0 * 16 + 0) * 16 + ?b div 16) * 16 + ?b mod 16 = ?b" by simp
  have ns: "\<not> IsSurrogate ?b" using 8(8) by (simp add: IsSurrogate_def)
  have en: "EncodeRune ?b = [c]" using 8(8) by (simp add: EncodeRune_def)
  have "escape_byte c @ ys
          = bslash # CHR ''u'' # CHR ''0'' # CHR ''0'' # hex (?b div 16) # hex (?b mod 16) # ys"
    using 8 by (simp add: escape_byte_def)
  then show ?thesis
    using unquote_u4 [OF g [unfolded v] ns] en
    by (cases "unquote_body ys") (simp_all del: unquote_body.simps)
qed (simp_all add: escape_byte_def bslash_def dquote_def byte_def)


lemma ValidString_ascii:
  "byte c < 0x80 \<Longrightarrow> ValidString (c # cs) = ValidString cs"
  by simp

lemma ValidString_high:
  "\<not> byte c < 0x80 \<Longrightarrow> DecodeRune (c # cs) = (r, w) \<Longrightarrow>
     ValidString (c # cs) = (\<not> (r = RuneError \<and> w = 1) \<and> ValidString (drop (w - 1) cs))"
  by (simp del: DecodeRune.simps)

lemma unquote_appendString_body:
  "ValidString s \<Longrightarrow> unquote_body (appendString_body s) = Some s"
proof (induction s rule: length_induct)
  case (1 s)
  show ?case
  proof (cases s)
    case Nil
    then show ?thesis by simp
  next
    case (Cons c cs)
    have IH: "length t \<le> length cs \<Longrightarrow> ValidString t \<Longrightarrow>
        unquote_body (appendString_body t) = Some t" for t
      using 1 Cons by simp
    show ?thesis
    proof (cases "byte c < 0x80")
      case True
      have v: "ValidString cs" using "1.prems" Cons ValidString_ascii [OF True] by simp
      show ?thesis
      proof (cases "htmlSafe c")
        case True
        then show ?thesis
          using \<open>byte c < 0x80\<close> Cons IH [OF _ v] by (simp add: htmlSafe_def)
      next
        case False
        then show ?thesis
          using Cons IH [OF _ v] unquote_escape [OF True]
          by (simp add: appendString_body_ascii [OF True] del: appendString_body.simps)
      qed
    next
      case False
      then have hi: "0x80 \<le> byte c" by simp
      obtain r w where d: "DecodeRune (c # cs) = (r, w)" by (cases "DecodeRune (c # cs)")
      have valid: "\<not> (r = RuneError \<and> w = 1)" and v: "ValidString (drop (w - 1) cs)"
        using "1.prems" Cons ValidString_high [OF False d] by simp_all
      have len: "length (drop (w - 1) cs) \<le> length cs" by simp
      have en: "EncodeRune r = c # take (w - 1) cs"
        using d hi valid by (rule DecodeRune_valid(4))
      have rest: "unquote_body (appendString_body (drop (w - 1) cs)) = Some (drop (w - 1) cs)"
        using len v by (rule IH)
      show ?thesis
      proof (cases "r = 0x2028 \<or> r = 0x2029")
        case True
        have g: "getu4 (bslash # CHR ''u'' # CHR ''2'' # CHR ''0'' # CHR ''2'' # hex (r mod 16)
                        # appendString_body (drop (w - 1) cs))
                   = Some (((2 * 16 + 0) * 16 + 2) * 16 + r mod 16)"
          by (intro getu4_digits hexval_consts hex_digit(2)) simp
        have e: "((2 * 16 + 0) * 16 + 2) * 16 + r mod 16 = r" using True by auto
        have ns: "\<not> IsSurrogate r" using True by (auto simp: IsSurrogate_def)
        show ?thesis
          unfolding Cons appendString_body_separator [OF False d valid True]
          using unquote_u4 [OF g [unfolded e] ns] rest en
          by (simp del: unquote_body.simps)
      next
        case nosep: False
        have dd: "DecodeRune (c # take (w - 1) cs @ appendString_body (drop (w - 1) cs)) = (r, w)"
          using d hi valid by (rule DecodeRune_valid(5))
        have l: "w - 1 \<le> length cs" using d hi valid by (rule DecodeRune_valid(2))
        show ?thesis
          unfolding Cons appendString_body_copy [OF False d valid nosep]
          using unquote_high [OF False dd] rest en l
          by (simp del: unquote_body.simps DecodeRune.simps)
      qed
    qed
  qed
qed

subsection \<open>Decoding a marshalled message\<close>

lemma tokenize_appendString:
  assumes "ValidString s"
  shows "tokenize (appendString s @ rest) = map_option ((#) (TString s)) (tokenize rest)"
proof -
  let ?b = "appendString_body s"
  have sc: "scan_string (?b @ dquote # rest) = Some (length ?b)"
    by (rule scan_string_appendString_body)
  have uq: "unquote_body ?b = Some s"
    using assms by (rule unquote_appendString_body)
  have q: "\<not> isSpace dquote" "dquote \<noteq> CHR ''{''" "dquote \<noteq> CHR ''}''" "dquote \<noteq> CHR ''[''"
    "dquote \<noteq> CHR '']''" "dquote \<noteq> CHR '':''" "dquote \<noteq> CHR '',''"
    by (simp_all add: dquote_def isSpace_def)
  have "tokenize (dquote # (?b @ dquote # rest)) = map_option ((#) (TString s)) (tokenize rest)"
    using sc uq q by simp
  then show ?thesis by (simp add: appendString_def)
qed

lemma tokenize_punct:
  "tokenize (CHR ''{'' # cs) = map_option ((#) TBeginObject) (tokenize cs)"
  "tokenize (CHR '':'' # cs) = map_option ((#) TColon) (tokenize cs)"
  "tokenize (CHR '','' # cs) = map_option ((#) TComma) (tokenize cs)"
  "tokenize ''}'' = Some [TEndObject]"
  by (simp_all add: isSpace_def)



lemma Marshal_Message_shape:
  \<open>Marshal_Message m = Inr (CHR ''{'' # appendString ''number'' @ CHR '':'' # appendString (Number m)
             @ CHR '','' # appendString ''content'' @ CHR '':'' # appendString (Content m) @ ''}'')\<close>
proof -
  have k1: \<open>appendString ''number'' = ''"number"''\<close> by code_simp
  have k2: \<open>appendString ''content'' = ''"content"''\<close> by code_simp
  show ?thesis unfolding Marshal_Message_def k1 k2 by simp
qed

lemma Marshal_Message_tokens:
  assumes "ValidString (Number m)" and "ValidString (Content m)"
    and "Marshal_Message m = Inr data"
  shows "tokenize data =
     Some [TBeginObject, TString ''number'', TColon, TString (Number m), TComma,
           TString ''content'', TColon, TString (Content m), TEndObject]"
proof -
  have v: "ValidString ''number''" "ValidString ''content''" by code_simp+
  have d: "data = CHR ''{'' # appendString ''number'' @ CHR '':'' # appendString (Number m)
             @ CHR '','' # appendString ''content'' @ CHR '':'' # appendString (Content m) @ ''}''"
    using assms(3) unfolding Marshal_Message_shape by simp
  show ?thesis
    unfolding d
    by (simp only: tokenize_punct tokenize_appendString v assms(1,2) option.map)
qed

lemma Message_tokens_value:
  "scan_tokens (stateBeginValue, [], None)
     [TBeginObject, TString ''number'', TColon, TString n, TComma,
      TString ''content'', TColon, TString c, TEndObject]
     = Some (stateEndTop, [], Some (JObject [(''number'', JString n), (''content'', JString c)]))"
  by (simp add: begin_value_def begin_string_def maxNestingDepth_def)

lemma Message_find_field:
  "find_field Message_fields ''number'' = Some ''number''"
  "find_field Message_fields ''content'' = Some ''content''"
  by code_simp+

lemma Unmarshal_Marshal_Message:
  assumes "ValidString (Number m)" and "ValidString (Content m)"
    and "Marshal_Message m = Inr data"
  shows "Unmarshal_Message data = (m, None)"
proof -
  have "parse_json data = Some (JObject [(''number'', JString (Number m)), (''content'', JString (Content m))])"
    using Marshal_Message_tokens [OF assms] by (simp add: parse_json_def Message_tokens_value del: scan_tokens.simps)
  then show ?thesis
    by (simp add: Unmarshal_Message_def Unmarshal_struct_def decode_struct_def Message_find_field
          Message_set_def)
qed

lemma char_of_nat_eq: "byte c = n \<Longrightarrow> char_of n = c"
  by (auto simp: byte_def)

lemma EncodeRune_FFFD: "EncodeRune 0xFFFD = [CHR 0xEF, CHR 0xBF, CHR 0xBD]"
  using char_of_nat_eq [of "CHR 0xEF" 239] char_of_nat_eq [of "CHR 0xBF" 191]
    char_of_nat_eq [of "CHR 0xBD" 189]
  by (simp add: EncodeRune_def byte_def)

lemma replaced_tokens: \<open>tokenize (''{"number":"","content":"'' @ [CHR 0x5C] @ ''ufffd"}'')
   = Some [TBeginObject, TString ''number'', TColon, TString [], TComma,
           TString ''content'', TColon, TString [CHR 0xEF, CHR 0xBF, CHR 0xBD], TEndObject]\<close>
  by (simp add: isSpace_def dquote_def bslash_def byte_def in_range_def hexval_def isHex_def
        IsSurrogate_def EncodeRune_FFFD RuneError_def)


lemma replaced_Unmarshal: \<open>Unmarshal_Message (''{"number":"","content":"'' @ [CHR 0x5C] @ ''ufffd"}'')
     = (\<lparr>Number = [], Content = [CHR 0xEF, CHR 0xBF, CHR 0xBD]\<rparr>, None)\<close>
  unfolding Unmarshal_Message_def Unmarshal_struct_def parse_json_def replaced_tokens
  by (simp add: Message_tokens_value decode_struct_def Message_find_field Message_set_def
        del: scan_tokens.simps)

subsection \<open>The round trip through the webhook decoder\<close>

text \<open>
  C7, as amended. For every message whose two fields are valid UTF-8, \<^verbatim>\<open>json.Marshal\<close>
  succeeds, and \<^verbatim>\<open>ReadWebhook\<close> on a stream that delivers the marshalled bytes returns
  a message equal to the original and no error.
\<close>

theorem ReadWebhook_roundtrip:
  assumes "ValidString (Number m)" and "ValidString (Content m)"
  shows "\<exists>data. Marshal_Message m = Inr data
           \<and> fst (ReadWebhook \<lparr>stream_data = data, stream_err = None\<rparr>) = (Some m, None)"
proof -
  obtain data where d: "Marshal_Message m = Inr data" by (simp add: Marshal_Message_def)
  have "Unmarshal_Message data = (m, None)"
    using assms d by (rule Unmarshal_Marshal_Message)
  then have "fst (ReadWebhook \<lparr>stream_data = data, stream_err = None\<rparr>) = (Some m, None)"
    by (simp add: ReadWebhook_def ReadAll_def)
  with d show ?thesis by blast
qed

theorem ReadWebhook_roundtrip_witness:
  "ValidString ''+15551234567'' \<and> ValidString [CHR ''h'', CHR 0xC3, CHR 0xA9, CHR ''<'']
   \<and> (\<exists>data. Marshal_Message
                \<lparr>Number = ''+15551234567'', Content = [CHR ''h'', CHR 0xC3, CHR 0xA9, CHR ''<'']\<rparr>
              = Inr data
           \<and> fst (ReadWebhook \<lparr>stream_data = data, stream_err = None\<rparr>)
               = (Some \<lparr>Number = ''+15551234567'',
                        Content = [CHR ''h'', CHR 0xC3, CHR 0xA9, CHR ''<'']\<rparr>, None))"
proof -
  have a: "ValidString ''+15551234567''" by code_simp
  have b: "ValidString [CHR ''h'', CHR 0xC3, CHR 0xA9, CHR ''<'']"
    by (simp add: byte_def in_range_def RuneError_def)
  from ReadWebhook_roundtrip
         [of "\<lparr>Number = ''+15551234567'', Content = [CHR ''h'', CHR 0xC3, CHR 0xA9, CHR ''<'']\<rparr>"]
       a b
  show ?thesis by simp
qed

text \<open>
  C7 as stated fails: a Go string may hold bytes that are not UTF-8. The message whose
  content is the single byte 0xFF is marshalled with the escape of U+FFFD in its place,
  and \<^verbatim>\<open>ReadWebhook\<close> returns a message whose content is the three bytes of U+FFFD.
\<close>

theorem ReadWebhook_roundtrip_counterexample:
  \<open>Marshal_Message \<lparr>Number = [], Content = [CHR 0xFF]\<rparr>
     = Inr (''{"number":"","content":"'' @ [CHR 0x5C] @ ''ufffd"}'')
   \<and> fst (ReadWebhook \<lparr>stream_data = ''{"number":"","content":"'' @ [CHR 0x5C] @ ''ufffd"}'',
                        stream_err = None\<rparr>)
       = (Some \<lparr>Number = [], Content = [CHR 0xEF, CHR 0xBF, CHR 0xBD]\<rparr>, None)
   \<and> fst (ReadWebhook \<lparr>stream_data = ''{"number":"","content":"'' @ [CHR 0x5C] @ ''ufffd"}'',
                        stream_err = None\<rparr>)
       \<noteq> (Some \<lparr>Number = [], Content = [CHR 0xFF]\<rparr>, None)\<close>
proof -
  have d: "DecodeRune [CHR 0xFF] = (RuneError, 1)" by (simp add: byte_def)
  have a: "appendString_body [CHR 0xFF]
             = [bslash, CHR ''u'', CHR ''f'', CHR ''f'', CHR ''f'', CHR ''d'']"
    using appendString_body_invalid [OF _ d] by (simp add: byte_def)
  have m: \<open>Marshal_Message \<lparr>Number = [], Content = [CHR 0xFF]\<rparr>
     = Inr (''{"number":"","content":"'' @ [CHR 0x5C] @ ''ufffd"}'')\<close>
    by (simp add: Marshal_Message_def appendString_def a bslash_def dquote_def
          del: appendString_body.simps(2))
  have r: \<open>fst (ReadWebhook \<lparr>stream_data = ''{"number":"","content":"'' @ [CHR 0x5C] @ ''ufffd"}'',
                        stream_err = None\<rparr>)
       = (Some \<lparr>Number = [], Content = [CHR 0xEF, CHR 0xBF, CHR 0xBD]\<rparr>, None)\<close>
    unfolding ReadWebhook_def ReadAll_def by (simp add: replaced_Unmarshal del: append.simps)
  show ?thesis using m r by simp
qed

subsection \<open>What a marshalled message denotes\<close>

lemma coerce_utf8_ascii: "byte c < 0x80 \<Longrightarrow> coerce_utf8 (c # cs) = c # coerce_utf8 cs"
  by simp

lemma coerce_utf8_invalid:
  "\<not> byte c < 0x80 \<Longrightarrow> DecodeRune (c # cs) = (r, w) \<Longrightarrow> r = RuneError \<and> w = 1 \<Longrightarrow>
     coerce_utf8 (c # cs) = [CHR 0xEF, CHR 0xBF, CHR 0xBD] @ coerce_utf8 cs"
  by (simp del: DecodeRune.simps)

lemma coerce_utf8_copy:
  "\<not> byte c < 0x80 \<Longrightarrow> DecodeRune (c # cs) = (r, w) \<Longrightarrow> \<not> (r = RuneError \<and> w = 1) \<Longrightarrow>
     coerce_utf8 (c # cs) = (c # take (w - 1) cs) @ coerce_utf8 (drop (w - 1) cs)"
  by (simp del: DecodeRune.simps)

lemma coerce_utf8_valid: "ValidString s \<Longrightarrow> coerce_utf8 s = s"
proof (induction s rule: length_induct)
  case (1 s)
  show ?case
  proof (cases s)
    case Nil
    then show ?thesis by simp
  next
    case (Cons c cs)
    have IH: "length t \<le> length cs \<Longrightarrow> ValidString t \<Longrightarrow> coerce_utf8 t = t" for t
      using 1 Cons by simp
    show ?thesis
    proof (cases "byte c < 0x80")
      case True
      then show ?thesis
        using "1.prems" Cons IH [of cs] ValidString_ascii [OF True] by simp
    next
      case False
      obtain r w where d: "DecodeRune (c # cs) = (r, w)" by (cases "DecodeRune (c # cs)")
      have valid: "\<not> (r = RuneError \<and> w = 1)" and v: "ValidString (drop (w - 1) cs)"
        using "1.prems" Cons ValidString_high [OF False d] by simp_all
      have "coerce_utf8 (drop (w - 1) cs) = drop (w - 1) cs"
        using v by (intro IH) simp
      then show ?thesis
        unfolding Cons coerce_utf8_copy [OF False d valid] by simp
    qed
  qed
qed

lemma unquote_appendString_body_coerced:
  "unquote_body (appendString_body s) = Some (coerce_utf8 s)"
proof (induction s rule: length_induct)
  case (1 s)
  show ?case
  proof (cases s)
    case Nil
    then show ?thesis by simp
  next
    case (Cons c cs)
    have IH: "length t \<le> length cs \<Longrightarrow>
        unquote_body (appendString_body t) = Some (coerce_utf8 t)" for t
      using 1 Cons by simp
    show ?thesis
    proof (cases "byte c < 0x80")
      case True
      show ?thesis
      proof (cases "htmlSafe c")
        case True
        then show ?thesis
          using \<open>byte c < 0x80\<close> Cons IH [of cs] by (simp add: htmlSafe_def)
      next
        case False
        then show ?thesis
          using Cons IH [of cs] unquote_escape [OF True]
          by (simp add: appendString_body_ascii [OF True] coerce_utf8_ascii [OF True]
                del: appendString_body.simps coerce_utf8.simps)
      qed
    next
      case False
      then have hi: "0x80 \<le> byte c" by simp
      obtain r w where d: "DecodeRune (c # cs) = (r, w)" by (cases "DecodeRune (c # cs)")
      have len: "length (drop (w - 1) cs) \<le> length cs" by simp
      have rest: "unquote_body (appendString_body (drop (w - 1) cs))
                    = Some (coerce_utf8 (drop (w - 1) cs))"
        using len by (rule IH)
      show ?thesis
      proof (cases "r = RuneError \<and> w = 1")
        case True
        have hf: "hexval (CHR ''f'') = Some 15" "hexval (CHR ''d'') = Some 13"
          by (simp_all add: hexval_def in_range_def byte_def)
        have g: "getu4 (bslash # CHR ''u'' # CHR ''f'' # CHR ''f'' # CHR ''f'' # CHR ''d''
                        # appendString_body cs)
                   = Some (((15 * 16 + 15) * 16 + 15) * 16 + 13)"
          by (intro getu4_digits hf)
        have e: "((15 * 16 + 15) * 16 + 15) * 16 + 13 = (0xFFFD :: nat)" by simp
        have ns: "\<not> IsSurrogate 0xFFFD" by (simp add: IsSurrogate_def)
        show ?thesis
          unfolding Cons appendString_body_invalid [OF False d True]
            coerce_utf8_invalid [OF False d True]
          using unquote_u4 [OF g [unfolded e] ns] IH [of cs] EncodeRune_FFFD
          by (simp del: unquote_body.simps)
      next
        case valid: False
        have en: "EncodeRune r = c # take (w - 1) cs"
          using d hi valid by (rule DecodeRune_valid(4))
        show ?thesis
        proof (cases "r = 0x2028 \<or> r = 0x2029")
          case True
          have g: "getu4 (bslash # CHR ''u'' # CHR ''2'' # CHR ''0'' # CHR ''2'' # hex (r mod 16)
                          # appendString_body (drop (w - 1) cs))
                     = Some (((2 * 16 + 0) * 16 + 2) * 16 + r mod 16)"
            by (intro getu4_digits hexval_consts hex_digit(2)) simp
          have e: "((2 * 16 + 0) * 16 + 2) * 16 + r mod 16 = r" using True by auto
          have ns: "\<not> IsSurrogate r" using True by (auto simp: IsSurrogate_def)
          show ?thesis
            unfolding Cons appendString_body_separator [OF False d valid True]
              coerce_utf8_copy [OF False d valid]
            using unquote_u4 [OF g [unfolded e] ns] rest en
            by (simp del: unquote_body.simps)
        next
          case nosep: False
          have dd: "DecodeRune (c # take (w - 1) cs @ appendString_body (drop (w - 1) cs)) = (r, w)"
            using d hi valid by (rule DecodeRune_valid(5))
          have l: "w - 1 \<le> length cs" using d hi valid by (rule DecodeRune_valid(2))
          show ?thesis
            unfolding Cons appendString_body_copy [OF False d valid nosep]
              coerce_utf8_copy [OF False d valid]
            using unquote_high [OF False dd] rest en l
            by (simp del: unquote_body.simps DecodeRune.simps)
        qed
      qed
    qed
  qed
qed

lemma tokenize_appendString_coerced:
  "tokenize (appendString s @ rest) = map_option ((#) (TString (coerce_utf8 s))) (tokenize rest)"
proof -
  let ?b = "appendString_body s"
  have sc: "scan_string (?b @ dquote # rest) = Some (length ?b)"
    by (rule scan_string_appendString_body)
  have uq: "unquote_body ?b = Some (coerce_utf8 s)"
    by (rule unquote_appendString_body_coerced)
  have q: "\<not> isSpace dquote" "dquote \<noteq> CHR ''{''" "dquote \<noteq> CHR ''}''" "dquote \<noteq> CHR ''[''"
    "dquote \<noteq> CHR '']''" "dquote \<noteq> CHR '':''" "dquote \<noteq> CHR '',''"
    by (simp_all add: dquote_def isSpace_def)
  have "tokenize (dquote # (?b @ dquote # rest))
          = map_option ((#) (TString (coerce_utf8 s))) (tokenize rest)"
    using sc uq q by simp
  then show ?thesis by (simp add: appendString_def)
qed

lemma parse_Marshal_Message:
  assumes "Marshal_Message m = Inr data"
  shows "parse_json data =
     Some (JObject [(''number'', JString (coerce_utf8 (Number m))),
                    (''content'', JString (coerce_utf8 (Content m)))])"
proof -
  have c: "coerce_utf8 ''number'' = ''number''" "coerce_utf8 ''content'' = ''content''"
    by code_simp+
  have d: "data = CHR ''{'' # appendString ''number'' @ CHR '':'' # appendString (Number m)
             @ CHR '','' # appendString ''content'' @ CHR '':'' # appendString (Content m) @ ''}''"
    using assms unfolding Marshal_Message_shape by simp
  have "tokenize data =
     Some [TBeginObject, TString ''number'', TColon, TString (coerce_utf8 (Number m)), TComma,
           TString ''content'', TColon, TString (coerce_utf8 (Content m)), TEndObject]"
    unfolding d
    by (simp only: tokenize_punct tokenize_appendString_coerced c option.map)
  then show ?thesis
    by (simp add: parse_json_def Message_tokens_value del: scan_tokens.simps)
qed

subsection \<open>The request\<close>

text \<open>
  C5, as amended. When the number parses, \<^verbatim>\<open>SendMessage\<close> gives exactly one request
  to the HTTP client (one call of \<^verbatim>\<open>Client.Do\<close>; what \<^verbatim>\<open>Do\<close> itself sends, as when
  it follows a redirect, is inside \<^verbatim>\<open>net/http\<close>): a \<open>POST\<close> to the endpoint, whose
  header gives the client's API key under \<open>sb-api-key-id\<close>, its secret key under
  \<open>sb-api-secret-key\<close> and \<open>application/json\<close> under \<open>Content-Type\<close>. Its body is
  what \<^verbatim>\<open>json.Marshal\<close> writes for the message, and it is valid JSON: an object with
  the two members \<open>number\<close> and \<open>content\<close>, which hold the formatted number and the
  message with every byte that is not valid UTF-8 replaced by U+FFFD; for valid UTF-8
  they hold the formatted number and the message themselves.
\<close>

theorem SendMessage_request:
  assumes "Parse lib to ''US'' = Inr num"
  shows \<open>\<exists>req. requests_of (snd (snd (SendMessage lib c to body))) = [req]
           \<and> Method req = ''POST''
           \<and> URL req = ''https://bluetexts-272923.uc.r.appspot.com/api/send-message''
           \<and> Header_Get (Header req) ''sb-api-key-id'' = APIKey c
           \<and> Header_Get (Header req) ''sb-api-secret-key'' = SecretKey c
           \<and> Header_Get (Header req) ''Content-Type'' = ''application/json''
           \<and> Marshal_Message \<lparr>Number = Format lib num E164, Content = body\<rparr>
                = Inr (RequestBody req)
           \<and> parse_json (RequestBody req)
                = Some (JObject [(''number'', JString (coerce_utf8 (Format lib num E164))),
                                 (''content'', JString (coerce_utf8 body))])
           \<and> (ValidString (Format lib num E164) \<and> ValidString body \<longrightarrow>
                parse_json (RequestBody req)
                  = Some (JObject [(''number'', JString (Format lib num E164)),
                                   (''content'', JString body)]))\<close>
proof -
  obtain buf where buf: "Marshal_Message \<lparr>Number = Format lib num E164, Content = body\<rparr> = Inr buf"
    by (simp add: Marshal_Message_def)
  let ?req = \<open>\<lparr>Method = ''POST'', URL = endpoint,
      Header = Header_Set ''Content-Type'' ''application/json''
                 (Header_Set ''sb-api-secret-key'' (SecretKey c)
                   (Header_Set ''sb-api-key-id'' (APIKey c) [])),
      RequestBody = buf\<rparr>\<close>
  have ev: "requests_of (snd (snd (SendMessage lib c to body))) = [?req]"
    using assms buf
    by (simp add: SendMessage_def NewRequest_endpoint Let_def
          split: sum.split prod.split option.split)
  have h: "Header_Get (Header ?req) ''sb-api-key-id'' = APIKey c"
      "Header_Get (Header ?req) ''sb-api-secret-key'' = SecretKey c"
      "Header_Get (Header ?req) ''Content-Type'' = ''application/json''"
    by (simp_all add: Header_Get_def Header_Set_def canon_keys)
  have p: "parse_json buf
             = Some (JObject [(''number'', JString (coerce_utf8 (Format lib num E164))),
                              (''content'', JString (coerce_utf8 body))])"
    using parse_Marshal_Message [OF buf] by simp
  have v: "ValidString (Format lib num E164) \<and> ValidString body \<longrightarrow>
             parse_json buf = Some (JObject [(''number'', JString (Format lib num E164)),
                                             (''content'', JString body)])"
    using p by (simp add: coerce_utf8_valid)
  show ?thesis
    using ev h buf p v by (intro exI [of _ ?req]) (simp add: endpoint_def)
qed

theorem SendMessage_request_witness:
  \<open>Parse stub_lib ''555-123-4567'' ''US'' = Inr ''5551234567''
   \<and> ValidString ''+15551234567'' \<and> ValidString ''hi''
   \<and> (\<exists>req. requests_of (snd (snd (SendMessage stub_lib
                 (NewCustomClient failing_transport ''key'' ''secret'') ''555-123-4567'' ''hi''))) = [req]
           \<and> Method req = ''POST''
           \<and> URL req = ''https://bluetexts-272923.uc.r.appspot.com/api/send-message''
           \<and> Header_Get (Header req) ''sb-api-key-id'' = ''key''
           \<and> Header_Get (Header req) ''sb-api-secret-key'' = ''secret''
           \<and> Header_Get (Header req) ''Content-Type'' = ''application/json''
           \<and> parse_json (RequestBody req)
                = Some (JObject [(''number'', JString ''+15551234567''), (''content'', JString ''hi'')]))\<close>
proof -
  have f: "Format stub_lib ''5551234567'' E164 = ''+15551234567''"
    by (simp add: stub_lib_def)
  have v: "ValidString ''+15551234567''" "ValidString ''hi''" by code_simp+
  from SendMessage_request [OF stub_lib_parse,
         of "NewCustomClient failing_transport ''key'' ''secret''" "''hi''"]
  obtain req where r:
    "requests_of (snd (snd (SendMessage stub_lib
        (NewCustomClient failing_transport ''key'' ''secret'') ''555-123-4567'' ''hi''))) = [req]"
    "Method req = ''POST''"
    "URL req = ''https://bluetexts-272923.uc.r.appspot.com/api/send-message''"
    "Header_Get (Header req) ''sb-api-key-id'' = ''key''"
    "Header_Get (Header req) ''sb-api-secret-key'' = ''secret''"
    "Header_Get (Header req) ''Content-Type'' = ''application/json''"
    "ValidString (Format stub_lib ''5551234567'' E164) \<and> ValidString ''hi'' \<longrightarrow>
       parse_json (RequestBody req)
         = Some (JObject [(''number'', JString (Format stub_lib ''5551234567'' E164)),
                          (''content'', JString ''hi'')])"
    by (auto simp: NewCustomClient_def)
  have "parse_json (RequestBody req)
          = Some (JObject [(''number'', JString ''+15551234567''), (''content'', JString ''hi'')])"
    using r(7) v f by simp
  with r(1-6) v stub_lib_parse show ?thesis by blast
qed

text \<open>
  C5 as stated fails: for the message of the single byte 0xFF the content of the request
  body is not the message but the three bytes of U+FFFD.
\<close>

theorem SendMessage_request_counterexample:
  \<open>map RequestBody (requests_of (snd (snd (SendMessage stub_lib
        (NewCustomClient failing_transport ''key'' ''secret'') ''555-123-4567'' [CHR 0xFF]))))
     = [''{"number":"+15551234567","content":"'' @ [CHR 0x5C] @ ''ufffd"}'']
   \<and> parse_json (''{"number":"+15551234567","content":"'' @ [CHR 0x5C] @ ''ufffd"}'')
       = Some (JObject [(''number'', JString ''+15551234567''),
                        (''content'', JString [CHR 0xEF, CHR 0xBF, CHR 0xBD])])
   \<and> [CHR 0xEF, CHR 0xBF, CHR 0xBD] \<noteq> [CHR 0xFF]\<close>
proof -
  have d: "DecodeRune [CHR 0xFF] = (RuneError, 1)" by (simp add: byte_def)
  have hb: "\<not> byte (CHR 0xFF) < 0x80" by (simp add: byte_def)
  have a: "appendString_body [CHR 0xFF]
             = [bslash, CHR ''u'', CHR ''f'', CHR ''f'', CHR ''f'', CHR ''d'']"
    using appendString_body_invalid [OF hb d] by simp
  have n: "appendString_body ''+15551234567'' = ''+15551234567''" by code_simp
  have m: \<open>Marshal_Message \<lparr>Number = ''+15551234567'', Content = [CHR 0xFF]\<rparr>
     = Inr (''{"number":"+15551234567","content":"'' @ [CHR 0x5C] @ ''ufffd"}'')\<close>
    by (simp add: Marshal_Message_def appendString_def a n bslash_def dquote_def
          del: appendString_body.simps(2))
  have c1: "coerce_utf8 ''+15551234567'' = ''+15551234567''" by code_simp
  have c2: "coerce_utf8 [CHR 0xFF] = [CHR 0xEF, CHR 0xBF, CHR 0xBD]"
    using coerce_utf8_invalid [OF hb d] by simp
  have p: \<open>parse_json (''{"number":"+15551234567","content":"'' @ [CHR 0x5C] @ ''ufffd"}'')
       = Some (JObject [(''number'', JString ''+15551234567''),
                        (''content'', JString [CHR 0xEF, CHR 0xBF, CHR 0xBD])])\<close>
    using parse_Marshal_Message [OF m] by (simp only: c1 c2 Message.simps)
  have f: "Format stub_lib ''5551234567'' E164 = ''+15551234567''"
    by (simp add: stub_lib_def)
  have r: \<open>map RequestBody (requests_of (snd (snd (SendMessage stub_lib
        (NewCustomClient failing_transport ''key'' ''secret'') ''555-123-4567'' [CHR 0xFF]))))
     = [''{"number":"+15551234567","content":"'' @ [CHR 0x5C] @ ''ufffd"}'']\<close>
    unfolding SendMessage_def stub_lib_parse
    by (simp add: f m NewRequest_endpoint NewCustomClient_def failing_transport_def Let_def
          del: append.simps)
  show ?thesis using r p by simp
qed

end
